theory Spec2Isabelle
  imports Main "HOL-Library.Sublist"
begin

section \<open>Strings\<close>

text \<open>
  Strings and buffers are byte lists (\<open>string\<close>); a text is kept as its UTF-8 encoding.
\<close>

definition lower_char :: "char \<Rightarrow> char" where
  "lower_char c =
     (case map_of (zip ''ABCDEFGHIJKLMNOPQRSTUVWXYZ'' ''abcdefghijklmnopqrstuvwxyz'') c of
        Some l \<Rightarrow> l
      | None \<Rightarrow> c)"

text \<open>\<open>String.prototype.toLowerCase\<close> on the ASCII letters, the only ones that can make an
  extension equal to one of the ASCII keys the server compares it with.\<close>

definition toLowerCase :: "string \<Rightarrow> string" where
  "toLowerCase s = map lower_char s"

text \<open>\<open>s.indexOf(pat)\<close>: the least position where \<open>pat\<close> occurs, \<open>None\<close> for JavaScript's -1.\<close>

fun indexOf :: "string \<Rightarrow> string \<Rightarrow> nat option" where
  "indexOf pat [] = (if pat = [] then Some 0 else None)"
| "indexOf pat (c # cs) =
     (if prefix pat (c # cs) then Some 0 else map_option Suc (indexOf pat cs))"

text \<open>\<open>s.includes(pat)\<close>.\<close>

definition includes_str :: "string \<Rightarrow> string \<Rightarrow> bool" where
  "includes_str pat s = (indexOf pat s \<noteq> None)"

text \<open>\<open>s.replace(pat, rep)\<close> with a string pattern and a replacement without \<open>$\<close>: only the
  first occurrence is replaced.\<close>

definition replace_first :: "string \<Rightarrow> string \<Rightarrow> string \<Rightarrow> string" where
  "replace_first pat rep s =
     (case indexOf pat s of
        None \<Rightarrow> s
      | Some i \<Rightarrow> take i s @ rep @ drop (i + length pat) s)"

text \<open>\<open>pat\<close> occurs in \<open>s\<close> at position \<open>i\<close>.\<close>

definition occurs_at :: "string \<Rightarrow> string \<Rightarrow> nat \<Rightarrow> bool" where
  "occurs_at pat s i = (i \<le> length s \<and> prefix pat (drop i s))"

text \<open>The decimal digits of a number, as template literals print it.\<close>

fun decimal :: "nat \<Rightarrow> string" where
  "decimal n =
     (if n < 10 then [''0123456789'' ! n]
      else decimal (n div 10) @ [''0123456789'' ! (n mod 10)])"

section \<open>UTF-8 text and percent escapes\<close>

text \<open>
  A JavaScript string is kept as its UTF-8 encoding, so \<open>Buffer.from(text, "utf-8")\<close> gives
  the bytes of a text as they are. \<open>buffer.toString("utf-8")\<close> decodes the bytes of a buffer:
  what is well-formed UTF-8 is kept, and every maximal part of an ill-formed sequence becomes
  the replacement character U+FFFD, whose encoding is \<open>EF BF BD\<close>.
\<close>

definition REPLACEMENT :: string where
  "REPLACEMENT = [char_of (0xEF :: nat), char_of (0xBF :: nat), char_of (0xBD :: nat)]"

text \<open>
  The decoder, byte by byte: \<open>needed\<close> counts the continuation bytes still to come,
  \<open>lower\<close> and \<open>upper\<close> bound the next one, \<open>pending\<close> holds the bytes of the character
  read so far. A byte that cannot continue the character ends it with a replacement and is
  read again as the start of the next character.
\<close>

function utf8_scan :: "nat \<Rightarrow> nat \<Rightarrow> nat \<Rightarrow> string \<Rightarrow> string \<Rightarrow> string" where
  "utf8_scan needed lower upper pending [] = (if needed = 0 then [] else REPLACEMENT)"
| "utf8_scan needed lower upper pending (c # cs) =
     (let b = (of_char c :: nat) in
      if needed = 0 then
        (if b \<le> 0x7F then c # utf8_scan 0 0x80 0xBF [] cs
         else if 0xC2 \<le> b \<and> b \<le> 0xDF then utf8_scan 1 0x80 0xBF [c] cs
         else if 0xE0 \<le> b \<and> b \<le> 0xEF then
           utf8_scan 2 (if b = 0xE0 then 0xA0 else 0x80) (if b = 0xED then 0x9F else 0xBF) [c] cs
         else if 0xF0 \<le> b \<and> b \<le> 0xF4 then
           utf8_scan 3 (if b = 0xF0 then 0x90 else 0x80) (if b = 0xF4 then 0x8F else 0xBF) [c] cs
         else REPLACEMENT @ utf8_scan 0 0x80 0xBF [] cs)
      else if b < lower \<or> upper < b then REPLACEMENT @ utf8_scan 0 0x80 0xBF [] (c # cs)
      else if needed = 1 then pending @ [c] @ utf8_scan 0 0x80 0xBF [] cs
      else utf8_scan (needed - 1) 0x80 0xBF (pending @ [c]) cs)"
  by pat_completeness auto
termination
  by (relation "measure (\<lambda>(needed, lower, upper, pending, xs).
        2 * length xs + (if needed = 0 then 0 else 1))") auto

definition toString_utf8 :: "string \<Rightarrow> string" where
  "toString_utf8 buf = utf8_scan 0 0x80 0xBF [] buf"

text \<open>The value of a hexadecimal digit, and of the two digits of an escape \<open>%XX\<close>.\<close>

definition hex_value :: "char \<Rightarrow> nat option" where
  "hex_value c = map_of (zip ''0123456789abcdefABCDEF''
       [0, 1, 2, 3, 4, 5, 6, 7, 8, 9, 10, 11, 12, 13, 14, 15, 10, 11, 12, 13, 14, 15]) c"

definition parse_hex_octet :: "char \<Rightarrow> char \<Rightarrow> nat option" where
  "parse_hex_octet h1 h2 =
     (case (hex_value h1, hex_value h2) of
        (Some a, Some b) \<Rightarrow> Some (16 * a + b)
      | _ \<Rightarrow> None)"

definition continuation :: "nat \<Rightarrow> bool" where
  "continuation b = (0x80 \<le> b \<and> b \<le> 0xBF)"

text \<open>The octets of one character of two to four bytes in well-formed UTF-8.\<close>

fun utf8_valid :: "nat list \<Rightarrow> bool" where
  "utf8_valid [b1, b2] = (0xC2 \<le> b1 \<and> b1 \<le> 0xDF \<and> continuation b2)"
| "utf8_valid [b1, b2, b3] =
     (0xE0 \<le> b1 \<and> b1 \<le> 0xEF
      \<and> (if b1 = 0xE0 then 0xA0 else 0x80) \<le> b2 \<and> b2 \<le> (if b1 = 0xED then 0x9F else 0xBF)
      \<and> continuation b3)"
| "utf8_valid [b1, b2, b3, b4] =
     (0xF0 \<le> b1 \<and> b1 \<le> 0xF4
      \<and> (if b1 = 0xF0 then 0x90 else 0x80) \<le> b2 \<and> b2 \<le> (if b1 = 0xF4 then 0x8F else 0xBF)
      \<and> continuation b3 \<and> continuation b4)"
| "utf8_valid bs = False"

text \<open>
  \<open>decodeURIComponent\<close>, \<open>None\<close> where it throws \<open>URIError\<close>: a character other than \<open>%\<close> is
  kept; \<open>%\<close> needs two hexadecimal digits; an octet below \<open>0x80\<close> is its character; an octet
  that starts a character of \<open>n\<close> bytes needs \<open>n - 1\<close> more escapes right after it, and the
  octets together must be well-formed UTF-8.
\<close>

fun decode_from :: "nat \<Rightarrow> nat list \<Rightarrow> string \<Rightarrow> string option" where
  "decode_from needed octets [] = (if needed = 0 then Some [] else None)"
| "decode_from needed octets (c # cs) =
     (if c \<noteq> CHR ''%'' then
        (if needed = 0 then map_option (\<lambda>s. c # s) (decode_from 0 [] cs) else None)
      else
        (case cs of
           h1 # h2 # rest \<Rightarrow>
             (case parse_hex_octet h1 h2 of
                None \<Rightarrow> None
              | Some b \<Rightarrow>
                  if needed = 0 then
                    (if b < 0x80 then map_option (\<lambda>s. char_of b # s) (decode_from 0 [] rest)
                     else if b < 0xC0 \<or> 0xF8 \<le> b then None
                     else decode_from (if b < 0xE0 then 1 else if b < 0xF0 then 2 else 3) [b] rest)
                  else if needed = 1 then
                    (if utf8_valid (octets @ [b])
                     then map_option (\<lambda>s. map char_of (octets @ [b]) @ s) (decode_from 0 [] rest)
                     else None)
                  else decode_from (needed - 1) (octets @ [b]) rest)
         | _ \<Rightarrow> None))"

definition decodeURIComponent :: "string \<Rightarrow> string option" where
  "decodeURIComponent s = decode_from 0 [] s"

section \<open>Paths (\<open>path.posix\<close>)\<close>

text \<open>The pieces of a path between its slashes; there is always at least one.\<close>

fun split_slash :: "string \<Rightarrow> string list" where
  "split_slash [] = [[]]"
| "split_slash (c # cs) =
     (if c = CHR ''/'' then [] # split_slash cs
      else (case split_slash cs of [] \<Rightarrow> [[c]] | s # ss \<Rightarrow> (c # s) # ss))"

fun join_slash :: "string list \<Rightarrow> string" where
  "join_slash [] = []"
| "join_slash [s] = s"
| "join_slash (s # t # ss) = s @ ''/'' @ join_slash (t # ss)"

text \<open>
  One segment of \<open>normalizeString\<close>: empty segments and \<open>.\<close> are dropped, \<open>..\<close> removes the
  segment before it when there is one that is not \<open>..\<close> itself, and is kept only where the path
  may climb above its start (\<open>allowAboveRoot\<close>).
\<close>

definition normalize_step :: "bool \<Rightarrow> string list \<Rightarrow> string \<Rightarrow> string list" where
  "normalize_step allowAboveRoot res seg =
     (if seg = [] \<or> seg = ''.'' then res
      else if seg = ''..'' then
        (if res \<noteq> [] \<and> last res \<noteq> ''..'' then butlast res
         else if allowAboveRoot then res @ [''..'']
         else res)
      else res @ [seg])"

definition normalizeString :: "bool \<Rightarrow> string \<Rightarrow> string" where
  "normalizeString allowAboveRoot p =
     join_slash (foldl (normalize_step allowAboveRoot) [] (split_slash p))"

text \<open>\<open>path.normalize\<close>.\<close>

definition path_normalize :: "string \<Rightarrow> string" where
  "path_normalize p =
     (if p = [] then ''.''
      else
        let isAbsolute = (hd p = CHR ''/'');
            trailingSeparator = (last p = CHR ''/'');
            q = normalizeString (\<not> isAbsolute) p
        in if q = [] then (if isAbsolute then ''/'' else if trailingSeparator then ''./'' else ''.'')
           else (if isAbsolute then ''/'' else []) @ q @ (if trailingSeparator then ''/'' else []))"

text \<open>\<open>path.join(a, b)\<close>: the arguments that are not empty, joined by a slash and normalized.\<close>

definition path_join :: "string \<Rightarrow> string \<Rightarrow> string" where
  "path_join a b =
     (if a = [] \<and> b = [] then ''.''
      else if a = [] then path_normalize b
      else if b = [] then path_normalize a
      else path_normalize (a @ ''/'' @ b))"

text \<open>The last segment of a path, trailing slashes ignored.\<close>

definition last_segment :: "string \<Rightarrow> string" where
  "last_segment p =
     rev (takeWhile (\<lambda>c. c \<noteq> CHR ''/'') (dropWhile (\<lambda>c. c = CHR ''/'') (rev p)))"

text \<open>
  \<open>path.extname\<close>: from the last dot of the last segment to its end; empty when the segment
  has no dot, when its only dot is its first character, and for \<open>..\<close>.
\<close>

definition path_extname :: "string \<Rightarrow> string" where
  "path_extname p =
     (let b = last_segment p;
          e = rev (takeWhile (\<lambda>c. c \<noteq> CHR ''.'') (rev b))
      in if CHR ''.'' \<notin> set b then []
         else if length b = Suc (length e) \<or> b = ''..'' then []
         else CHR ''.'' # e)"


subsection \<open>Notions used in the proofs about paths\<close>

text \<open>The segments \<open>normalizeString\<close> keeps, before they are joined.\<close>

definition norm_stack :: "bool \<Rightarrow> string \<Rightarrow> string list" where
  "norm_stack allow p = foldl (normalize_step allow) [] (split_slash p)"

text \<open>The shape of a normalized list of segments, read from its end: no segment is empty,
  \<open>.\<close> or contains a slash, and \<open>..\<close> only stands at the front, where it is allowed.\<close>

fun good_rev :: "bool \<Rightarrow> string list \<Rightarrow> bool" where
  "good_rev allow [] = True"
| "good_rev allow (s # before) =
     (s \<noteq> [] \<and> s \<noteq> ''.'' \<and> CHR ''/'' \<notin> set s
      \<and> (s = ''..'' \<longrightarrow> allow \<and> (\<forall>t\<in>set before. t = ''..''))
      \<and> good_rev allow before)"

definition good :: "bool \<Rightarrow> string list \<Rightarrow> bool" where
  "good allow st = good_rev allow (rev st)"

section \<open>The file system\<close>

text \<open>
  What the operating system answers for a path: nothing there (\<open>None\<close>), a file that can be
  read, a directory, or a file that exists and cannot be read.
\<close>

datatype node = File string | Directory | Unreadable

type_synonym filesystem = "string \<Rightarrow> node option"

datatype errno = ENOENT | EISDIR | EACCES

text \<open>\<open>fs.promises.stat\<close>, reduced to \<open>isDirectory()\<close>.\<close>

definition stat :: "filesystem \<Rightarrow> string \<Rightarrow> errno + bool" where
  "stat fs p = (case fs p of None \<Rightarrow> Inl ENOENT | Some n \<Rightarrow> Inr (n = Directory))"

text \<open>\<open>fs.promises.access\<close> with its default mode, which only asks whether the path exists.\<close>

definition access :: "filesystem \<Rightarrow> string \<Rightarrow> errno + unit" where
  "access fs p = (case fs p of None \<Rightarrow> Inl ENOENT | Some n \<Rightarrow> Inr ())"

text \<open>\<open>fs.promises.readFile\<close>.\<close>

definition readFile :: "filesystem \<Rightarrow> string \<Rightarrow> errno + string" where
  "readFile fs p =
     (case fs p of
        None \<Rightarrow> Inl ENOENT
      | Some (File content) \<Rightarrow> Inr content
      | Some Directory \<Rightarrow> Inl EISDIR
      | Some Unreadable \<Rightarrow> Inl EACCES)"

section \<open>Errors\<close>

text \<open>The values the code throws: a system error of the file system, or \<open>new Error(message)\<close>.\<close>

datatype js_error = SystemError errno string | Error string

definition error_message :: "js_error \<Rightarrow> string" where
  "error_message e =
     (case e of
        Error m \<Rightarrow> m
      | SystemError ENOENT p \<Rightarrow> ''ENOENT: no such file or directory, open '' @ [CHR 0x27] @ p @ [CHR 0x27]
      | SystemError EACCES p \<Rightarrow> ''EACCES: permission denied, open '' @ [CHR 0x27] @ p @ [CHR 0x27]
      | SystemError EISDIR p \<Rightarrow> ''EISDIR: illegal operation on a directory, read'')"

text \<open>An error interpolated into a template literal.\<close>

definition error_toString :: "js_error \<Rightarrow> string" where
  "error_toString e = ''Error: '' @ error_message e"

section \<open>The transpiler\<close>

datatype loader = Ts | Tsx | Jsx | Js

text \<open>
  \<open>esbuild.transform\<close> with the fixed options of \<open>transpileFile\<close>: the loader, the
  \<open>sourcefile\<close> and the content give the code, or the message of the error it throws.
  The function is applied to the bytes of the source file, so it stands for what
  \<open>readFile(filePath, "utf-8")\<close> and \<open>esbuild.transform\<close> do one after the other: the bytes
  read as UTF-8 text and the text transformed.
\<close>

type_synonym esbuild = "loader \<Rightarrow> string \<Rightarrow> string \<Rightarrow> string + string"

text \<open>The \<open>switch\<close> of \<open>transpileFile\<close> on the extension.\<close>

definition loader_for :: "string \<Rightarrow> loader" where
  "loader_for ext =
     (if ext = ''.ts'' then Ts
      else if ext = ''.tsx'' then Tsx
      else if ext = ''.jsx'' then Jsx
      else Js)"

definition transpileFile :: "esbuild \<Rightarrow> filesystem \<Rightarrow> string \<Rightarrow> js_error + string" where
  "transpileFile transform fs filePath =
     (let ext = toLowerCase (path_extname filePath) in
      case readFile fs filePath of
        Inl e \<Rightarrow> Inl (SystemError e filePath)
      | Inr content \<Rightarrow>
          (case transform (loader_for ext) filePath content of
             Inr code \<Rightarrow> Inr code
           | Inl errorMessage \<Rightarrow>
               Inl (Error (''Failed to transpile '' @ filePath @ '': '' @ errorMessage))))"

section \<open>The server\<close>

definition MIME_TYPES :: "string \<rightharpoonup> string" where
  "MIME_TYPES = map_of
     [(''.html'', ''text/html''),
      (''.css'', ''text/css''),
      (''.js'', ''application/javascript''),
      (''.mjs'', ''application/javascript''),
      (''.ts'', ''application/javascript''),
      (''.tsx'', ''application/javascript''),
      (''.jsx'', ''application/javascript''),
      (''.json'', ''application/json''),
      (''.png'', ''image/png''),
      (''.jpg'', ''image/jpeg''),
      (''.jpeg'', ''image/jpeg''),
      (''.gif'', ''image/gif''),
      (''.svg'', ''image/svg+xml''),
      (''.ico'', ''image/x-icon''),
      (''.webp'', ''image/webp''),
      (''.woff'', ''font/woff''),
      (''.woff2'', ''font/woff2''),
      (''.ttf'', ''font/ttf''),
      (''.eot'', ''application/vnd.ms-fontobject''),
      (''.otf'', ''font/otf''),
      (''.mp4'', ''video/mp4''),
      (''.webm'', ''video/webm''),
      (''.mp3'', ''audio/mpeg''),
      (''.wav'', ''audio/wav''),
      (''.pdf'', ''application/pdf''),
      (''.txt'', ''text/plain''),
      (''.xml'', ''application/xml'')]"

definition TRANSPILE_EXTENSIONS :: "string list" where
  "TRANSPILE_EXTENSIONS = [''.ts'', ''.tsx'', ''.jsx'']"

definition LIVE_RELOAD_SCRIPT :: string where
  "LIVE_RELOAD_SCRIPT =
     ''\<newline>'' @
     ''<script>\<newline>'' @
     ''(function() {\<newline>'' @
     ''    const protocol = window.location.protocol === 'https:' ? 'wss:' : 'ws:';\<newline>'' @
     ''    const ws = new WebSocket(protocol + '//' + window.location.host + '/__ts-live-server-ws');\<newline>'' @
     ''    \<newline>'' @
     ''    ws.onmessage = function(event) {\<newline>'' @
     ''        if (event.data === 'reload') {\<newline>'' @
     ''            window.location.reload();\<newline>'' @
     ''        }\<newline>'' @
     ''    };\<newline>'' @
     ''    \<newline>'' @
     ''    ws.onclose = function() {\<newline>'' @
     ''        console.log('TS Live Server: Connection lost. Attempting to reconnect...');\<newline>'' @
     ''        setTimeout(function() {\<newline>'' @
     ''            window.location.reload();\<newline>'' @
     ''        }, 1000);\<newline>'' @
     ''    };\<newline>'' @
     ''})();\<newline>'' @
     ''</script>\<newline>''"

definition WS_ENDPOINT :: string where
  "WS_ENDPOINT = ''/__ts-live-server-ws''"

record response =
  status :: nat
  content_type :: string
  cache_control :: "string option"
  content_length :: "nat option"
  body :: string

text \<open>The fields of a \<open>LiveServer\<close>. The sockets in \<open>clients\<close> are named by numbers, in the
  order a \<open>Set\<close> iterates them (the order of insertion).\<close>

record LiveServer =
  rootDir :: string
  port :: nat
  liveReload :: bool
  server :: bool
  wss :: bool
  clients :: "nat list"
  running :: bool

definition isRunning :: "LiveServer \<Rightarrow> bool" where
  "isRunning srv = running srv"

subsection \<open>Requests\<close>

text \<open>The page of \<open>send404\<close> before and after the interpolated \<open>pathname\<close>.\<close>

definition NOT_FOUND_HEAD :: string where
  \<open>NOT_FOUND_HEAD =
     ''\<newline>'' @
     ''            <!DOCTYPE html>\<newline>'' @
     ''            <html>\<newline>'' @
     ''            <head>\<newline>'' @
     ''                <title>404 - Not Found</title>\<newline>'' @
     ''                <style>\<newline>'' @
     ''                    body { \<newline>'' @
     ''                        font-family: -apple-system, BlinkMacSystemFont, 'Segoe UI', Roboto, sans-serif;\<newline>'' @
     ''                        display: flex;\<newline>'' @
     ''                        justify-content: center;\<newline>'' @
     ''                        align-items: center;\<newline>'' @
     ''                        height: 100vh;\<newline>'' @
     ''                        margin: 0;\<newline>'' @
     ''                        background: #1e1e1e;\<newline>'' @
     ''                        color: #fff;\<newline>'' @
     ''                    }\<newline>'' @
     ''                    .container { text-align: center; }\<newline>'' @
     ''                    h1 { font-size: 4em; margin: 0; color: #007acc; }\<newline>'' @
     ''                    p { color: #888; }\<newline>'' @
     ''                </style>\<newline>'' @
     ''            </head>\<newline>'' @
     ''            <body>\<newline>'' @
     ''                <div class="container">\<newline>'' @
     ''                    <h1>404</h1>\<newline>'' @
     ''                    <p>File not found: ''\<close>

definition NOT_FOUND_TAIL :: string where
  \<open>NOT_FOUND_TAIL =
     ''</p>\<newline>'' @
     ''                </div>\<newline>'' @
     ''            </body>\<newline>'' @
     ''            </html>\<newline>'' @
     ''        ''\<close>

definition send404 :: "string \<Rightarrow> response" where
  "send404 pathname =
    \<lparr>status = 404, content_type = ''text/html'', cache_control = None, content_length = None,
     body = NOT_FOUND_HEAD @ pathname @ NOT_FOUND_TAIL\<rparr>"

text \<open>\<open>resolveFile\<close>: for a path that does not exist and ends in \<open>.js\<close>, the first of the
  \<open>.ts\<close>, \<open>.tsx\<close> and \<open>.jsx\<close> files of the same base that exists.\<close>

fun first_accessible :: "filesystem \<Rightarrow> string \<Rightarrow> string list \<Rightarrow> string option" where
  "first_accessible fs basePath [] = None"
| "first_accessible fs basePath (altExt # alternatives) =
     (case access fs (basePath @ altExt) of
        Inr _ \<Rightarrow> Some (basePath @ altExt)
      | Inl _ \<Rightarrow> first_accessible fs basePath alternatives)"

definition resolveFile :: "filesystem \<Rightarrow> string \<Rightarrow> string option" where
  "resolveFile fs filePath =
     (let ext = path_extname filePath in
      if ext = ''.js'' then
        first_accessible fs (take (length filePath - 3) filePath) [''.ts'', ''.tsx'', ''.jsx'']
      else None)"

text \<open>\<open>serveTranspiledFile\<close> catches every error of the transpilation and answers 500.\<close>

definition serveTranspiledFile :: "esbuild \<Rightarrow> filesystem \<Rightarrow> string \<Rightarrow> response" where
  "serveTranspiledFile transform fs filePath =
     (case transpileFile transform fs filePath of
        Inr code \<Rightarrow>
          \<lparr>status = 200, content_type = ''application/javascript'',
           cache_control = Some ''no-cache'', content_length = None, body = code\<rparr>
      | Inl error \<Rightarrow>
          \<lparr>status = 500, content_type = ''text/plain'', cache_control = None,
           content_length = None, body = ''Transpilation error: '' @ error_toString error\<rparr>)"

text \<open>
  The injection of \<open>serveStaticFile\<close>: the buffer read as UTF-8 text, the snippet put before
  the first \<open></body>\<close> of the text or at its end, and the text encoded again.
\<close>

definition injectLiveReload :: "string \<Rightarrow> string" where
  "injectLiveReload content =
     (let html = toString_utf8 content in
      if includes_str ''</body>'' html
      then replace_first ''</body>'' (LIVE_RELOAD_SCRIPT @ ''</body>'') html
      else html @ LIVE_RELOAD_SCRIPT)"

text \<open>\<open>serveStaticFile\<close>: the error of \<open>readFile\<close> is thrown to the caller.\<close>

definition serveStaticFile :: "LiveServer \<Rightarrow> filesystem \<Rightarrow> string \<Rightarrow> string \<Rightarrow> js_error + response" where
  "serveStaticFile srv fs filePath ext =
     (let mimeType = (case MIME_TYPES ext of Some t \<Rightarrow> t | None \<Rightarrow> ''application/octet-stream'') in
      case readFile fs filePath of
        Inl e \<Rightarrow> Inl (SystemError e filePath)
      | Inr content0 \<Rightarrow>
          (let content =
                 (if ext = ''.html'' \<and> liveReload srv then injectLiveReload content0
                  else content0)
           in Inr \<lparr>status = 200, content_type = mimeType, cache_control = Some ''no-cache'',
                   content_length = Some (length content), body = content\<rparr>))"

text \<open>\<open>filePath.replace(/\.js$/, ext)\<close>.\<close>

definition replace_js_suffix :: "string \<Rightarrow> string \<Rightarrow> string" where
  "replace_js_suffix ext filePath =
     (if suffix ''.js'' filePath then take (length filePath - 3) filePath @ ext else filePath)"

text \<open>
  The first half of \<open>handleRequest\<close>: the path joined onto the root, \<open>index.html\<close> inside
  it when it is a directory, and a source alternative when nothing is there.
\<close>

definition resolvedPath :: "filesystem \<Rightarrow> LiveServer \<Rightarrow> string \<Rightarrow> string" where
  "resolvedPath fs srv pathname =
     (let filePath = path_join (rootDir srv) pathname in
      case stat fs filePath of
        Inr isDirectory \<Rightarrow>
          if isDirectory then path_join filePath ''index.html'' else filePath
      | Inl _ \<Rightarrow>
          (case resolveFile fs filePath of
             Some resolved \<Rightarrow> resolved
           | None \<Rightarrow> filePath))"

text \<open>The second half: what is served from the resolved path.\<close>

definition serveResolved ::
    "esbuild \<Rightarrow> filesystem \<Rightarrow> LiveServer \<Rightarrow> string \<Rightarrow> string \<Rightarrow> response" where
  "serveResolved transform fs srv pathname filePath =
     (let ext = toLowerCase (path_extname filePath) in
      case access fs filePath of
        Inl _ \<Rightarrow> send404 pathname
      | Inr _ \<Rightarrow>
          if ext \<in> set TRANSPILE_EXTENSIONS then serveTranspiledFile transform fs filePath
          else if ext = ''.js'' \<and> access fs (replace_js_suffix ''.ts'' filePath) = Inr ()
            then serveTranspiledFile transform fs (replace_js_suffix ''.ts'' filePath)
          else if ext = ''.js'' \<and> access fs (replace_js_suffix ''.tsx'' filePath) = Inr ()
            then serveTranspiledFile transform fs (replace_js_suffix ''.tsx'' filePath)
          else
            (case serveStaticFile srv fs filePath ext of
               Inl _ \<Rightarrow> send404 pathname
             | Inr r \<Rightarrow> r))"

text \<open>
  \<open>handleRequest\<close>, from the decoded \<open>pathname\<close> on (\<open>url.parse\<close> and
  \<open>decodeURIComponent\<close> have produced it from the request). \<open>None\<close> is the request that is
  left without any response.
\<close>

definition handleRequest :: "esbuild \<Rightarrow> filesystem \<Rightarrow> LiveServer \<Rightarrow> string \<Rightarrow> response option" where
  "handleRequest transform fs srv pathname =
     (if pathname = WS_ENDPOINT then None
      else Some (serveResolved transform fs srv pathname (resolvedPath fs srv pathname)))"

text \<open>
  \<open>handleRequest\<close> as a whole, from the path of the request as it was sent
  (\<open>parsedUrl.pathname || "/"\<close>). \<open>decodeURIComponent\<close> stands outside every \<open>try\<close>: when it
  throws, the promise of the handler is rejected and nothing handles the rejection.
\<close>

datatype outcome = Responded response | NoResponse | UnhandledURIError

definition handleRequest_encoded ::
    "esbuild \<Rightarrow> filesystem \<Rightarrow> LiveServer \<Rightarrow> string \<Rightarrow> outcome" where
  "handleRequest_encoded transform fs srv encoded =
     (case decodeURIComponent encoded of
        None \<Rightarrow> UnhandledURIError
      | Some pathname \<Rightarrow>
          (case handleRequest transform fs srv pathname of
             None \<Rightarrow> NoResponse
           | Some r \<Rightarrow> Responded r))"

text \<open>The listener that \<open>start\<close> registers, from the decoded path on: it runs
  \<open>handleRequest\<close>, which writes no field of the server.\<close>

definition request_listener ::
    "esbuild \<Rightarrow> filesystem \<Rightarrow> LiveServer \<Rightarrow> string \<Rightarrow> response option \<times> LiveServer" where
  "request_listener transform fs srv pathname = (handleRequest transform fs srv pathname, srv)"

subsection \<open>The reload channel and the life cycle\<close>

datatype readyState = CONNECTING | OPEN | CLOSING | CLOSED

text \<open>
  The socket objects the server holds references to: the state of each, the messages sent so
  far (to whom, what) and the sockets \<open>close()\<close> was called on, in order.
\<close>

record sockets =
  readyState :: "nat \<Rightarrow> readyState"
  sent :: "(nat \<times> string) list"
  close_calls :: "nat list"

text \<open>\<open>client.close()\<close>: a socket that is not closed yet starts closing.\<close>

definition ws_close :: "sockets \<Rightarrow> nat \<Rightarrow> sockets" where
  "ws_close net client =
     net\<lparr>readyState := (readyState net)
            (client := (if readyState net client = CLOSED then CLOSED else CLOSING)),
         close_calls := close_calls net @ [client]\<rparr>"

text \<open>\<open>client.send(data)\<close>.\<close>

definition ws_send :: "sockets \<Rightarrow> nat \<Rightarrow> string \<Rightarrow> sockets" where
  "ws_send net client data = net\<lparr>sent := sent net @ [(client, data)]\<rparr>"

text \<open>The handlers of the \<open>connection\<close> event and of a socket's \<open>close\<close> event.\<close>

definition on_connection :: "LiveServer \<Rightarrow> nat \<Rightarrow> LiveServer" where
  "on_connection srv ws =
     srv\<lparr>clients := (if ws \<in> set (clients srv) then clients srv else clients srv @ [ws])\<rparr>"

definition on_close :: "LiveServer \<Rightarrow> nat \<Rightarrow> LiveServer" where
  "on_close srv ws = srv\<lparr>clients := removeAll ws (clients srv)\<rparr>"

definition notifyClients :: "LiveServer \<Rightarrow> sockets \<Rightarrow> sockets" where
  "notifyClients srv net =
     foldl (\<lambda>n client. if readyState n client = OPEN then ws_send n client ''reload'' else n)
       net (clients srv)"

text \<open>What \<open>server.listen\<close> leads to: the \<open>listening\<close> callback, or the \<open>error\<close> event
  with code \<open>EADDRINUSE\<close> or with another error.\<close>

datatype listen_outcome = Listening | AddrInUse | ListenFailed js_error

text \<open>
  How the promise of \<open>start\<close> ends. The listeners of the \<open>error\<close> event run in the order they
  were added. With live reload, \<open>new WebSocketServer({ server })\<close> has added one before the
  listener of \<open>start\<close>: it emits the error again on the \<open>WebSocketServer\<close>, where nothing
  listens for it, so the error is thrown out of the event, the listener of \<open>start\<close> never runs
  and the promise is never settled (\<open>Unsettled\<close>).
\<close>

datatype settlement = Resolved | Rejected js_error | Unsettled

definition start :: "listen_outcome \<Rightarrow> LiveServer \<Rightarrow> settlement \<times> LiveServer" where
  "start outcome srv =
     (let srv1 = srv\<lparr>server := True\<rparr>;
          srv2 = (if liveReload srv1 then srv1\<lparr>wss := True\<rparr> else srv1)
      in case outcome of
           Listening \<Rightarrow> (Resolved, srv2\<lparr>running := True\<rparr>)
         | AddrInUse \<Rightarrow>
             (if liveReload srv2 then Unsettled
              else Rejected (Error (''Port '' @ decimal (port srv2) @ '' is already in use'')),
              srv2)
         | ListenFailed err \<Rightarrow> (if liveReload srv2 then Unsettled else Rejected err, srv2))"

text \<open>What the callback of \<open>server.close\<close> is called with.\<close>

datatype close_outcome = CloseDone | CloseFailed js_error

definition stop ::
    "close_outcome \<Rightarrow> LiveServer \<Rightarrow> sockets \<Rightarrow> (js_error + unit) \<times> LiveServer \<times> sockets" where
  "stop outcome srv net =
     (let net1 = foldl ws_close net (clients srv);
          srv1 = srv\<lparr>clients := []\<rparr>;
          srv2 = (if wss srv1 then srv1\<lparr>wss := False\<rparr> else srv1)
      in if server srv2 then
           (case outcome of
              CloseFailed err \<Rightarrow> (Inl err, srv2, net1)
            | CloseDone \<Rightarrow> (Inr (), srv2\<lparr>running := False, server := False\<rparr>, net1))
         else (Inr (), srv2, net1))"

section \<open>Example environments\<close>

text \<open>A server on \<open>/srv/www\<close> with live reload, not started yet.\<close>

definition demo_server :: LiveServer where
  "demo_server =
     \<lparr>rootDir = ''/srv/www'', port = 5500, liveReload = True, server = False, wss = False,
      clients = [], running = False\<rparr>"

text \<open>The same server with live reload switched off.\<close>

definition demo_plain :: LiveServer where
  "demo_plain = demo_server\<lparr>liveReload := False\<rparr>"

text \<open>A stand-in for the transpiler: it rejects one text that is not a program and marks
  every other text with the loader it was given.\<close>

definition demo_transform :: esbuild where
  "demo_transform l sourcefile content =
     (if content = ''let = ;'' then Inl ''Transform failed with 1 error''
      else Inr ((case l of Ts \<Rightarrow> ''/*ts*/'' | Tsx \<Rightarrow> ''/*tsx*/'' | Jsx \<Rightarrow> ''/*jsx*/''
                 | Js \<Rightarrow> ''/*js*/'') @ content))"

text \<open>An association list as a file system.\<close>

definition files :: "(string \<times> node) list \<Rightarrow> filesystem" where
  "files entries = map_of entries"

text \<open>A running server with three reload clients, all open; socket 4 is still connecting
  and is not in the set.\<close>

definition demo_running :: LiveServer where
  "demo_running = demo_server\<lparr>server := True, wss := True, clients := [1, 2, 3], running := True\<rparr>"

definition demo_sockets :: sockets where
  "demo_sockets =
     \<lparr>readyState = (\<lambda>c. CLOSED)(1 := OPEN, 2 := OPEN, 3 := OPEN, 4 := CONNECTING),
      sent = [], close_calls = []\<rparr>"

text \<open>The served directory \<open>/srv/www\<close> and a file beside it.\<close>

definition demo_files :: filesystem where
  "demo_files = files
     [(''/srv/www'', Directory),
      (''/srv/www/'', Directory),
      (''/srv/www/index.html'', File ''<html><body><h1>Hi</h1></body></html>''),
      (''/srv/www/notes.html'', File ''<h1>Notes</h1>''),
      (''/srv/www/upper.html'', File ''<HTML><BODY>Hi</BODY></HTML>''),
      (''/srv/www/latin1.html'', File (''<body>caf'' @ [CHR 0xE9] @ ''</body>'')),
      (''/srv/www/saved.html'', File (''<body>'' @ LIVE_RELOAD_SCRIPT @ ''</body>'')),
      (''/srv/www/style.css'', File ''body { margin: 0 }''),
      (''/srv/www/main.ts'', File ''let x: number = 1;''),
      (''/srv/www/main.js'', File ''var x = 1;''),
      (''/srv/www/app.tsx'', File ''const a = <b/>;''),
      (''/srv/www/widget.js'', File ''var w;''),
      (''/srv/www/widget.jsx'', File ''const w = <i/>;''),
      (''/srv/www/broken.ts'', File ''let = ;''),
      (''/srv/www/locked.ts'', Unreadable),
      (''/srv/www/locked.css'', Unreadable),
      (''/srv/www/docs'', Directory),
      (''/srv/www/docs/index.html'', File ''<body>Docs</body>''),
      (''/srv/www/__ts-live-server-ws'', Directory),
      (''/srv/www/__ts-live-server-ws/index.html'', File ''<body>ws</body>''),
      (''/srv/secret.txt'', File ''secret''),
      (''/srv/page.html'', File ''<p>private</p>''),
      (''/srv/keys.js'', File ''var key;'')]"

section \<open>The life cycle and the reload channel\<close>

lemma notify_fold:
  "sent (foldl (\<lambda>n client. if readyState n client = OPEN then ws_send n client msg else n) net cs)
     = sent net @ map (\<lambda>c. (c, msg)) (filter (\<lambda>c. readyState net c = OPEN) cs)
   \<and> readyState (foldl (\<lambda>n client. if readyState n client = OPEN then ws_send n client msg else n) net cs)
     = readyState net"
  by (induction cs arbitrary: net) (simp_all add: ws_send_def)

lemma count_list_map_filter:
  "distinct cs \<Longrightarrow>
   count_list (map (\<lambda>c. (c, msg)) (filter P cs)) (c, msg) = (if c \<in> set cs \<and> P c then 1 else 0)"
  by (induction cs) auto

lemma close_fold:
  "readyState (foldl ws_close net cs) c
     = (if c \<in> set cs then (if readyState net c = CLOSED then CLOSED else CLOSING)
        else readyState net c)
   \<and> close_calls (foldl ws_close net cs) = close_calls net @ cs
   \<and> sent (foldl ws_close net cs) = sent net"
  by (induction cs arbitrary: net) (auto simp add: ws_close_def)

lemma notify_no_clients: "clients srv = [] \<Longrightarrow> notifyClients srv net = net"
  by (simp add: notifyClients_def)

text \<open>
  Claim C5, against the code. A port that is already bound makes \<open>listen\<close> raise
  \<open>EADDRINUSE\<close>. Without live reload \<open>start()\<close> then fails as the claim says: its promise is
  rejected with the error "Port <port> is already in use". With live reload, which is the
  default, it does not: the listener that the \<open>WebSocketServer\<close> added first throws the error
  out of the \<open>error\<close> event, the listener of \<open>start\<close> never runs, and the promise is neither
  rejected nor resolved. In both cases \<open>isRunning()\<close> is left as it was.
\<close>

theorem start_port_in_use:
  "fst (start AddrInUse srv) =
     (if liveReload srv then Unsettled
      else Rejected (Error (''Port '' @ decimal (port srv) @ '' is already in use'')))
   \<and> isRunning (snd (start AddrInUse srv)) = isRunning srv"
  by (simp add: start_def isRunning_def Let_def)

theorem start_port_in_use_witness:
  "liveReload demo_server \<and> \<not> isRunning demo_server
   \<and> fst (start AddrInUse demo_server) = Unsettled
   \<and> \<not> isRunning (snd (start AddrInUse demo_server))
   \<and> \<not> liveReload demo_plain \<and> \<not> isRunning demo_plain
   \<and> fst (start AddrInUse demo_plain) = Rejected (Error ''Port 5500 is already in use'')
   \<and> \<not> isRunning (snd (start AddrInUse demo_plain))"
  using start_port_in_use [of demo_server] start_port_in_use [of demo_plain]
  by (simp add: demo_plain_def demo_server_def isRunning_def)

text \<open>
  Claim C6. \<open>notifyClients()\<close> sends the token \<open>reload\<close> to the sockets of the connection
  set that are open when it is called, once each and in the order of the set, and to no other
  socket: a socket in another state is skipped, and a socket that is not in the set (one that
  connects later) gets nothing. When the set holds N sockets, all of them open, exactly N tokens
  are sent, one to each of them.
\<close>

theorem notifyClients_broadcast:
  "sent (notifyClients srv net)
     = sent net @ map (\<lambda>c. (c, ''reload'')) (filter (\<lambda>c. readyState net c = OPEN) (clients srv))
   \<and> readyState (notifyClients srv net) = readyState net
   \<and> ((\<forall>c\<in>set (clients srv). readyState net c = OPEN) \<longrightarrow>
        length (sent (notifyClients srv net)) = length (sent net) + length (clients srv))
   \<and> (distinct (clients srv) \<longrightarrow>
        (\<forall>c. count_list (drop (length (sent net)) (sent (notifyClients srv net))) (c, ''reload'')
             = (if c \<in> set (clients srv) \<and> readyState net c = OPEN then 1 else 0)))"
  unfolding notifyClients_def
  by (simp add: notify_fold count_list_map_filter)

theorem notifyClients_broadcast_witness:
  "clients demo_running = [1, 2, 3]
   \<and> readyState demo_sockets 1 = OPEN \<and> readyState demo_sockets 2 = OPEN
   \<and> readyState demo_sockets 3 = OPEN
   \<and> distinct (clients demo_running)
   \<and> sent (notifyClients demo_running demo_sockets)
       = [(1, ''reload''), (2, ''reload''), (3, ''reload'')]
   \<and> length (sent (notifyClients demo_running demo_sockets)) = 3
   \<and> count_list (sent (notifyClients demo_running demo_sockets)) (4, ''reload'') = 0"
  using notifyClients_broadcast [of demo_running demo_sockets]
  by (simp add: demo_running_def demo_server_def demo_sockets_def)

text \<open>
  Claim C7, as the code has it. \<open>stop()\<close> calls \<open>close()\<close> on every socket of the connection
  set, so that each of them has left the open state when the promise of \<open>stop()\<close> settles: it
  is closing (its closing handshake has been started) or closed; and \<open>stop()\<close> empties the set;
  whatever \<open>server.close\<close> reports, a later \<open>notifyClients()\<close> sends nothing and changes
  nothing.
\<close>

theorem stop_closes_clients:
  "(case stop outcome srv net of (res, srv', net') \<Rightarrow>
      clients srv' = []
      \<and> close_calls net' = close_calls net @ clients srv
      \<and> (\<forall>c\<in>set (clients srv). readyState net' c = CLOSING \<or> readyState net' c = CLOSED)
      \<and> sent net' = sent net
      \<and> notifyClients srv' net' = net')"
  by (auto simp add: stop_def Let_def close_fold notify_no_clients split: close_outcome.splits)

theorem stop_closes_clients_witness:
  "isRunning demo_running
   \<and> clients demo_running = [1, 2, 3]
   \<and> readyState demo_sockets 1 = OPEN \<and> readyState demo_sockets 2 = OPEN
   \<and> readyState demo_sockets 3 = OPEN
   \<and> (case stop CloseDone demo_running demo_sockets of (res, srv', net') \<Rightarrow>
        res = Inr () \<and> \<not> isRunning srv' \<and> clients srv' = []
        \<and> close_calls net' = [1, 2, 3]
        \<and> readyState net' 1 = CLOSING \<and> readyState net' 2 = CLOSING \<and> readyState net' 3 = CLOSING
        \<and> sent (notifyClients srv' net') = [])"
  using stop_closes_clients [where outcome = CloseDone and srv = demo_running and net = demo_sockets]
  by (simp add: demo_running_def demo_server_def demo_sockets_def isRunning_def stop_def
      ws_close_def)

text \<open>
  The claim as it is written fails: a socket that was open is closing, not closed, when
  \<open>stop()\<close> returns. \<open>close()\<close> starts the closing handshake, and \<open>stop()\<close> does not wait for
  the sockets to report that they are closed.
\<close>

theorem stop_leaves_closing_counterexample:
  "isRunning demo_running
   \<and> clients demo_running = [1, 2, 3]
   \<and> readyState demo_sockets 1 = OPEN
   \<and> fst (stop CloseDone demo_running demo_sockets) = Inr ()
   \<and> readyState (snd (snd (stop CloseDone demo_running demo_sockets))) 1 = CLOSING
   \<and> readyState (snd (snd (stop CloseDone demo_running demo_sockets))) 1 \<noteq> CLOSED"
  by (simp add: demo_running_def demo_server_def demo_sockets_def isRunning_def stop_def
      ws_close_def)

section \<open>Evaluation\<close>

text \<open>
  The definitions that the examples unfold.
\<close>

lemmas eval_path = path_join_def path_normalize_def normalizeString_def normalize_step_def
  path_extname_def last_segment_def

lemmas eval_fs = stat_def access_def readFile_def files_def demo_files_def

lemmas eval_request = handleRequest_def resolvedPath_def serveResolved_def resolveFile_def
  serveTranspiledFile_def serveStaticFile_def transpileFile_def loader_for_def
  replace_js_suffix_def TRANSPILE_EXTENSIONS_def WS_ENDPOINT_def toLowerCase_def lower_char_def
  includes_str_def replace_first_def MIME_TYPES_def demo_server_def demo_transform_def
  error_toString_def error_message_def send404_def request_listener_def suffix_to_prefix
  injectLiveReload_def toString_utf8_def

section \<open>Paths\<close>

lemma split_slash_ne: "split_slash s \<noteq> []"
  by (induction s) (auto split: list.splits)

lemma split_slash_append: "split_slash (a @ CHR ''/'' # b) = split_slash a @ split_slash b"
proof (induction a)
  case Nil
  show ?case by simp
next
  case (Cons c cs)
  show ?case
  proof (cases "c = CHR ''/''")
    case True
    with Cons show ?thesis by simp
  next
    case False
    obtain s ss where s: "split_slash cs = s # ss"
      using split_slash_ne [of cs] by (cases "split_slash cs") auto
    with False Cons show ?thesis by simp
  qed
qed

lemma split_slash_no_slash: "CHR ''/'' \<notin> set s \<Longrightarrow> split_slash s = [s]"
  by (induction s) auto

lemma split_slash_segments: "s \<in> set (split_slash p) \<Longrightarrow> CHR ''/'' \<notin> set s"
proof (induction p arbitrary: s)
  case Nil
  then show ?case by simp
next
  case (Cons c cs)
  obtain t ts where t: "split_slash cs = t # ts"
    using split_slash_ne [of cs] by (cases "split_slash cs") auto
  show ?case
  proof (cases "c = CHR ''/''")
    case True
    with Cons show ?thesis by auto
  next
    case False
    with Cons t show ?thesis by auto
  qed
qed

lemma split_join_slash:
  "segs \<noteq> [] \<Longrightarrow> \<forall>s\<in>set segs. CHR ''/'' \<notin> set s \<Longrightarrow> split_slash (join_slash segs) = segs"
proof (induction segs rule: join_slash.induct)
  case 1
  then show ?case by simp
next
  case (2 s)
  then show ?case by (simp add: split_slash_no_slash)
next
  case (3 s t ss)
  then show ?case by (simp add: split_slash_append split_slash_no_slash)
qed

lemma split_slash_trailing: "split_slash (s @ ''/'') = split_slash s @ [[]]"
  using split_slash_append [of s "[]"] by simp

lemma good_Nil: "good allow []"
  by (simp add: good_def)

lemma good_snoc:
  "good allow (st @ [s]) \<longleftrightarrow>
     s \<noteq> [] \<and> s \<noteq> ''.'' \<and> CHR ''/'' \<notin> set s
     \<and> (s = ''..'' \<longrightarrow> allow \<and> (\<forall>t\<in>set st. t = ''..'')) \<and> good allow st"
  by (simp add: good_def)

lemma good_butlast: "good allow st \<Longrightarrow> good allow (butlast st)"
  by (cases st rule: rev_cases) (simp_all add: good_snoc good_Nil)

lemma good_last_dotdot: "good allow st \<Longrightarrow> st \<noteq> [] \<Longrightarrow> last st = ''..'' \<Longrightarrow> allow \<and> (\<forall>t\<in>set st. t = ''..'')"
  by (cases st rule: rev_cases) (auto simp add: good_snoc)

lemma good_step:
  "good allow st \<Longrightarrow> CHR ''/'' \<notin> set seg \<Longrightarrow> good allow (normalize_step allow st seg)"
proof -
  assume g: "good allow st" and seg: "CHR ''/'' \<notin> set seg"
  show ?thesis
  proof (cases "seg = ''..''")
    case False
    with g seg show ?thesis by (auto simp add: normalize_step_def good_snoc)
  next
    case True
    show ?thesis
    proof (cases "st \<noteq> [] \<and> last st \<noteq> ''..''")
      case True
      with g \<open>seg = ''..''\<close> show ?thesis by (simp add: normalize_step_def good_butlast)
    next
      case False
      then have "st = [] \<or> (st \<noteq> [] \<and> last st = ''..'')" by auto
      then have all: "\<forall>t\<in>set st. t = ''..''"
        using good_last_dotdot [OF g] by auto
      from False \<open>seg = ''..''\<close> g all show ?thesis
        by (auto simp add: normalize_step_def good_snoc)
    qed
  qed
qed

lemma good_foldl:
  "good allow st \<Longrightarrow> \<forall>s\<in>set segs. CHR ''/'' \<notin> set s \<Longrightarrow>
   good allow (foldl (normalize_step allow) st segs)"
  by (induction segs arbitrary: st) (simp_all add: good_step)

lemma good_norm_stack: "good allow (norm_stack allow p)"
  unfolding norm_stack_def
  by (rule good_foldl) (auto simp add: good_Nil dest: split_slash_segments)

lemma foldl_good_id: "good allow st \<Longrightarrow> foldl (normalize_step allow) [] st = st"
proof (induction st rule: rev_induct)
  case Nil
  show ?case by simp
next
  case (snoc s st)
  then have g: "good allow st" and s: "s \<noteq> []" "s \<noteq> ''.''"
    and d: "s = ''..'' \<Longrightarrow> allow \<and> (\<forall>t\<in>set st. t = ''..'')"
    by (simp_all add: good_snoc)
  from snoc g have "foldl (normalize_step allow) [] st = st" by simp
  then have "foldl (normalize_step allow) [] (st @ [s]) = normalize_step allow st s" by simp
  also have "\<dots> = st @ [s]"
  proof (cases "s = ''..''")
    case True
    with d have "allow" and "\<forall>t\<in>set st. t = ''..''" by simp_all
    then have "st = [] \<or> last st = ''..''" by (cases st rule: rev_cases) auto
    with True \<open>allow\<close> show ?thesis by (auto simp add: normalize_step_def)
  next
    case False
    with s show ?thesis by (simp add: normalize_step_def)
  qed
  finally show ?case .
qed

lemma good_segments: "good allow st \<Longrightarrow> s \<in> set st \<Longrightarrow> s \<noteq> [] \<and> CHR ''/'' \<notin> set s"
  by (induction st rule: rev_induct) (auto simp add: good_snoc)

lemma step_empty: "normalize_step allow st [] = st"
  by (simp add: normalize_step_def)

lemma join_slash_Nil_iff: "\<forall>s\<in>set st. s \<noteq> [] \<Longrightarrow> join_slash st = [] \<longleftrightarrow> st = []"
  by (induction st rule: join_slash.induct) auto

lemma hd_join_slash: "st \<noteq> [] \<Longrightarrow> hd st \<noteq> [] \<Longrightarrow> hd (join_slash st) = hd (hd st)"
  by (induction st rule: join_slash.induct) auto

lemma norm_stack_segments_ne: "\<forall>s\<in>set (norm_stack allow p). s \<noteq> []"
  using good_segments [OF good_norm_stack] by blast

lemma path_normalize_unfold:
  assumes "p \<noteq> []" and "a = (hd p \<noteq> CHR ''/'')"
  shows "path_normalize p =
     (if norm_stack a p = []
      then (if \<not> a then ''/'' else if last p = CHR ''/'' then ''./'' else ''.'')
      else (if \<not> a then ''/'' else [])
           @ join_slash (norm_stack a p)
           @ (if last p = CHR ''/'' then ''/'' else []))"
  using assms join_slash_Nil_iff [OF norm_stack_segments_ne, of a p]
  by (simp add: path_normalize_def normalizeString_def norm_stack_def Let_def)

lemma join_slash_ne: "norm_stack a p \<noteq> [] \<Longrightarrow> join_slash (norm_stack a p) \<noteq> []"
  using join_slash_Nil_iff [OF norm_stack_segments_ne, of a p] by simp

lemma path_normalize_ne: "path_normalize p \<noteq> []"
proof (cases "p = []")
  case True
  then show ?thesis by (simp add: path_normalize_def)
next
  case False
  then show ?thesis
    using join_slash_ne [of "hd p \<noteq> CHR ''/''" p]
    by (simp add: path_normalize_unfold [OF False refl])
qed

lemma hd_join_stack:
  assumes "norm_stack a p \<noteq> []"
  shows "hd (join_slash (norm_stack a p) @ s) \<noteq> CHR ''/''"
proof -
  let ?st = "norm_stack a p"
  from assms have "hd ?st \<in> set ?st" by simp
  then have h: "hd ?st \<noteq> []" "CHR ''/'' \<notin> set (hd ?st)"
    using good_segments [OF good_norm_stack] by blast+
  then have "hd (hd ?st) \<noteq> CHR ''/''" by (cases "hd ?st") auto
  then show ?thesis
    using assms h hd_join_slash [of ?st] join_slash_ne [OF assms] by simp
qed

lemma hd_path_normalize:
  assumes "p \<noteq> []"
  shows "hd (path_normalize p) = CHR ''/'' \<longleftrightarrow> hd p = CHR ''/''"
proof -
  define a where "a = (hd p \<noteq> CHR ''/'')"
  have unf: "path_normalize p =
     (if norm_stack a p = []
      then (if \<not> a then ''/'' else if last p = CHR ''/'' then ''./'' else ''.'')
      else (if \<not> a then ''/'' else [])
           @ join_slash (norm_stack a p)
           @ (if last p = CHR ''/'' then ''/'' else []))"
    using assms a_def by (rule path_normalize_unfold)
  show ?thesis
  proof (cases "norm_stack a p = []")
    case True
    with unf a_def show ?thesis by auto
  next
    case False
    have "hd (join_slash (norm_stack a p)) \<noteq> CHR ''/''"
      and "hd (join_slash (norm_stack a p) @ ''/'') \<noteq> CHR ''/''"
      using hd_join_stack [OF False, of "[]"] hd_join_stack [OF False, of "''/''"] by simp_all
    with unf a_def False show ?thesis by (cases a) auto
  qed
qed

lemma stack_of_normalized:
  assumes "p \<noteq> []" and "a = (hd p \<noteq> CHR ''/'')"
  shows "norm_stack a (path_normalize p) = norm_stack a p"
proof (cases "norm_stack a p = []")
  case True
  then have "path_normalize p = ''/'' \<or> path_normalize p = ''./'' \<or> path_normalize p = ''.''"
    by (simp add: path_normalize_unfold [OF assms])
  then have "norm_stack a (path_normalize p) = []"
    by (auto simp add: norm_stack_def normalize_step_def)
  with True show ?thesis by simp
next
  case False
  let ?st = "norm_stack a p"
  have segs: "\<forall>s\<in>set ?st. CHR ''/'' \<notin> set s"
    using good_segments [OF good_norm_stack] by blast
  have sj: "split_slash (join_slash ?st) = ?st"
    using False segs by (rule split_join_slash)
  have id: "foldl (normalize_step a) [] ?st = ?st"
    by (rule foldl_good_id) (rule good_norm_stack)
  have "norm_stack a ((if \<not> a then ''/'' else []) @ join_slash ?st
             @ (if last p = CHR ''/'' then ''/'' else [])) = ?st"
    unfolding norm_stack_def [of a "_ @ _"]
    using sj id by (cases a) (simp_all add: split_slash_trailing step_empty)
  with False show ?thesis
    by (simp add: path_normalize_unfold [OF assms])
qed

lemma norm_stack_append:
  "norm_stack allow (u @ CHR ''/'' # t)
     = foldl (normalize_step allow) (norm_stack allow u) (split_slash t)"
  by (simp add: norm_stack_def split_slash_append)

text \<open>
  Normalizing the first part of a path before joining more onto it changes nothing.
\<close>

lemma normalize_normalize_append:
  assumes "p \<noteq> []"
  shows "path_normalize (path_normalize p @ CHR ''/'' # t) = path_normalize (p @ CHR ''/'' # t)"
proof -
  define a where "a = (hd p \<noteq> CHR ''/'')"
  let ?u = "path_normalize p"
  have u: "?u \<noteq> []" by (rule path_normalize_ne)
  have a1: "a = (hd (?u @ CHR ''/'' # t) \<noteq> CHR ''/'')"
    using u hd_path_normalize [OF assms] a_def by simp
  have a2: "a = (hd (p @ CHR ''/'' # t) \<noteq> CHR ''/'')"
    using assms a_def by simp
  have st: "norm_stack a (?u @ CHR ''/'' # t) = norm_stack a (p @ CHR ''/'' # t)"
    by (simp add: norm_stack_append stack_of_normalized [OF assms a_def])
  have l: "last (?u @ CHR ''/'' # t) = last (p @ CHR ''/'' # t)" by simp
  have n1: "?u @ CHR ''/'' # t \<noteq> []" and n2: "p @ CHR ''/'' # t \<noteq> []" by simp_all
  show ?thesis
    unfolding path_normalize_unfold [OF n1 a1] path_normalize_unfold [OF n2 a2] st l ..
qed

lemma join_index:
  assumes "p \<noteq> []"
  shows "path_join (path_join root p) ''index.html'' = path_join root (p @ ''/index.html'')"
proof (cases "root = []")
  case True
  with assms show ?thesis
    using normalize_normalize_append [OF assms, of "''index.html''"]
    by (simp add: path_join_def path_normalize_ne)
next
  case False
  with assms show ?thesis
    using normalize_normalize_append [of "root @ CHR ''/'' # p" "''index.html''"]
    by (simp add: path_join_def path_normalize_ne)
qed

text \<open>
  The extension of a path that ends in one of the script extensions.
\<close>

lemma extname_js: "path_extname (x @ ''.js'') = (if takeWhile (\<lambda>c. c \<noteq> CHR ''/'') (rev x) = [] then [] else ''.js'')"
  by (simp add: path_extname_def last_segment_def Let_def)

lemma extname_ts: "path_extname (x @ ''.ts'') = (if takeWhile (\<lambda>c. c \<noteq> CHR ''/'') (rev x) = [] then [] else ''.ts'')"
  by (simp add: path_extname_def last_segment_def Let_def)

lemma extname_tsx: "path_extname (x @ ''.tsx'') = (if takeWhile (\<lambda>c. c \<noteq> CHR ''/'') (rev x) = [] then [] else ''.tsx'')"
  by (simp add: path_extname_def last_segment_def Let_def)

lemma extname_jsx: "path_extname (x @ ''.jsx'') = (if takeWhile (\<lambda>c. c \<noteq> CHR ''/'') (rev x) = [] then [] else ''.jsx'')"
  by (simp add: path_extname_def last_segment_def Let_def)

lemma lower_exts: "toLowerCase ''.ts'' = ''.ts''" "toLowerCase ''.tsx'' = ''.tsx''"
  "toLowerCase ''.jsx'' = ''.jsx''" "toLowerCase ''.js'' = ''.js''"
  by (simp_all add: toLowerCase_def lower_char_def)

lemma replace_js_suffix_append: "replace_js_suffix e (x @ ''.js'') = x @ e"
  by (simp add: replace_js_suffix_def suffix_def)

section \<open>Text\<close>

text \<open>Text of ASCII characters is decoded to itself, and a path without \<open>%\<close> as well.\<close>

lemma utf8_scan_ascii:
  "\<forall>c\<in>set s. (of_char c :: nat) < 128 \<Longrightarrow> utf8_scan 0 0x80 0xBF [] s = s"
  by (induction s) (simp_all add: Let_def)

lemma toString_utf8_ascii:
  "\<forall>c\<in>set s. (of_char c :: nat) < 128 \<Longrightarrow> toString_utf8 s = s"
  by (simp add: toString_utf8_def utf8_scan_ascii)

lemma decode_from_plain: "CHR ''%'' \<notin> set s \<Longrightarrow> decode_from 0 [] s = Some s"
  by (induction s) auto

lemma decodeURIComponent_plain: "CHR ''%'' \<notin> set s \<Longrightarrow> decodeURIComponent s = Some s"
  by (simp add: decodeURIComponent_def decode_from_plain)

section \<open>Searching in strings\<close>

lemma indexOf_Some:
  "indexOf pat s = Some i \<Longrightarrow> occurs_at pat s i \<and> (\<forall>j<i. \<not> occurs_at pat s j)"
proof (induction s arbitrary: i)
  case Nil
  then show ?case by (simp add: occurs_at_def split: if_splits)
next
  case (Cons c cs)
  show ?case
  proof (cases "prefix pat (c # cs)")
    case True
    with Cons.prems show ?thesis by (simp add: occurs_at_def)
  next
    case False
    with Cons.prems obtain k where k: "indexOf pat cs = Some k" "i = Suc k" by auto
    from Cons.IH [OF k(1)] have ih: "occurs_at pat cs k" "\<forall>j<k. \<not> occurs_at pat cs j" by simp_all
    have "\<not> occurs_at pat (c # cs) j" if "j < Suc k" for j
    proof (cases j)
      case 0
      with False show ?thesis by (simp add: occurs_at_def)
    next
      case (Suc m)
      with that ih(2) show ?thesis by (simp add: occurs_at_def)
    qed
    with ih(1) k(2) show ?thesis by (simp add: occurs_at_def)
  qed
qed

lemma indexOf_None: "indexOf pat s = None \<Longrightarrow> \<not> occurs_at pat s i"
proof (induction s arbitrary: i)
  case Nil
  then show ?case by (simp add: occurs_at_def split: if_splits)
next
  case (Cons c cs)
  then have np: "\<not> prefix pat (c # cs)" and n: "indexOf pat cs = None"
    by (auto split: if_splits)
  show ?case
  proof (cases i)
    case 0
    with np show ?thesis by (simp add: occurs_at_def)
  next
    case (Suc m)
    with Cons.IH [OF n, of m] show ?thesis by (simp add: occurs_at_def)
  qed
qed

lemma occurs_at_drop: "occurs_at pat s i \<Longrightarrow> drop i s = pat @ drop (i + length pat) s"
proof -
  assume "occurs_at pat s i"
  then obtain zs where zs: "drop i s = pat @ zs" by (auto simp add: occurs_at_def prefix_def)
  then have "drop (length pat) (drop i s) = zs" by simp
  then have "zs = drop (i + length pat) s" by (simp add: add.commute)
  with zs show ?thesis by simp
qed

lemma occurs_at_insert: "i \<le> length s \<Longrightarrow> occurs_at ins (take i s @ ins @ rest) i"
  by (simp add: occurs_at_def)

lemma occurs_at_mid: "occurs_at s (a @ s @ b) (length a)"
  by (simp add: occurs_at_def)

section \<open>Requests\<close>

lemma index_not_endpoint: "p @ ''/index.html'' \<noteq> WS_ENDPOINT"
proof
  assume "p @ ''/index.html'' = WS_ENDPOINT"
  then have "last (p @ ''/index.html'') = last WS_ENDPOINT" by simp
  then show False by (simp add: WS_ENDPOINT_def)
qed

lemma serveTranspiledFile_ok:
  "fs p = Some (File c) \<Longrightarrow> tr (loader_for (toLowerCase (path_extname p))) p c = Inr code \<Longrightarrow>
   serveTranspiledFile tr fs p =
     \<lparr>status = 200, content_type = ''application/javascript'', cache_control = Some ''no-cache'',
      content_length = None, body = code\<rparr>"
  by (simp add: serveTranspiledFile_def transpileFile_def readFile_def)

lemma serveTranspiledFile_diag:
  "fs p = Some (File c) \<Longrightarrow> tr (loader_for (toLowerCase (path_extname p))) p c = Inl msg \<Longrightarrow>
   serveTranspiledFile tr fs p =
     \<lparr>status = 500, content_type = ''text/plain'', cache_control = None, content_length = None,
      body = ''Transpilation error: Error: Failed to transpile '' @ p @ '': '' @ msg\<rparr>"
  by (simp add: serveTranspiledFile_def transpileFile_def readFile_def error_toString_def
      error_message_def)

lemma serveTranspiledFile_cong:
  "fs' p = fs p \<Longrightarrow> serveTranspiledFile tr fs' p = serveTranspiledFile tr fs p"
  by (simp add: serveTranspiledFile_def transpileFile_def readFile_def)

lemma js_request_served:
  assumes "pathname \<noteq> WS_ENDPOINT"
    and "path_join (rootDir srv) pathname = x @ ''.js''"
    and "path_extname (x @ ''.js'') = ''.js''"
    and "fs (x @ ''.js'') \<noteq> Some Directory"
    and "fs (x @ ''.ts'') \<noteq> None \<or> fs (x @ ''.tsx'') \<noteq> None
         \<or> (fs (x @ ''.js'') = None \<and> fs (x @ ''.jsx'') \<noteq> None)"
  shows "handleRequest tr fs srv pathname =
           Some (serveTranspiledFile tr fs
             (if fs (x @ ''.ts'') \<noteq> None then x @ ''.ts''
              else if fs (x @ ''.tsx'') \<noteq> None then x @ ''.tsx'' else x @ ''.jsx''))"
proof -
  have seg: "takeWhile (\<lambda>c. c \<noteq> CHR ''/'') (rev x) \<noteq> []"
    using assms(3) by (auto simp add: extname_js split: if_splits)
  have exts: "path_extname (x @ ''.ts'') = ''.ts''" "path_extname (x @ ''.tsx'') = ''.tsx''"
    "path_extname (x @ ''.jsx'') = ''.jsx''"
    using seg by (simp_all add: extname_ts extname_tsx extname_jsx)
  show ?thesis
  proof (cases "fs (x @ ''.js'')")
    case None
    then show ?thesis
      using assms exts
      by (auto simp add: handleRequest_def resolvedPath_def serveResolved_def stat_def
          resolveFile_def access_def lower_exts TRANSPILE_EXTENSIONS_def split: option.splits)
  next
    case (Some n)
    then show ?thesis
      using assms exts
      by (auto simp add: handleRequest_def resolvedPath_def serveResolved_def stat_def
          access_def lower_exts TRANSPILE_EXTENSIONS_def replace_js_suffix_append
          split: option.splits)
  qed
qed




text \<open>
  Claim C2, as the code has it. For a request for \<open>x.js\<close> (not a directory) such that
  \<open>x.ts\<close> or \<open>x.tsx\<close> exists, or such that \<open>x.js\<close> does not exist and \<open>x.jsx\<close> exists, the
  response is the one of \<open>serveTranspiledFile\<close> for the first source that exists in the order
  \<open>.ts\<close>, \<open>.tsx\<close>, \<open>.jsx\<close>: 200 with the transpiler's output as body when that source can be
  read and transpiled; and when \<open>x.js\<close> exists as well, the response does not depend on the bytes
  of \<open>x.js\<close>.
\<close>

theorem js_request_prefers_source:
  assumes "pathname \<noteq> WS_ENDPOINT"
    and "path_join (rootDir srv) pathname = x @ ''.js''"
    and "path_extname (x @ ''.js'') = ''.js''"
    and "fs (x @ ''.js'') \<noteq> Some Directory"
    and "fs (x @ ''.ts'') \<noteq> None \<or> fs (x @ ''.tsx'') \<noteq> None
         \<or> (fs (x @ ''.js'') = None \<and> fs (x @ ''.jsx'') \<noteq> None)"
    and "src = (if fs (x @ ''.ts'') \<noteq> None then x @ ''.ts''
                else if fs (x @ ''.tsx'') \<noteq> None then x @ ''.tsx'' else x @ ''.jsx'')"
  shows "handleRequest tr fs srv pathname = Some (serveTranspiledFile tr fs src)
         \<and> (\<forall>c code. fs src = Some (File c)
                \<and> tr (loader_for (path_extname src)) src c = Inr code \<longrightarrow>
               handleRequest tr fs srv pathname =
                 Some \<lparr>status = 200, content_type = ''application/javascript'',
                       cache_control = Some ''no-cache'', content_length = None, body = code\<rparr>)
         \<and> (\<forall>c0 c'. fs (x @ ''.js'') = Some (File c0) \<longrightarrow>
               handleRequest tr (fs(x @ ''.js'' := Some (File c'))) srv pathname =
                 handleRequest tr fs srv pathname)"
proof -
  have served: "handleRequest tr fs srv pathname = Some (serveTranspiledFile tr fs src)"
    unfolding assms(6) using assms(1-5) by (rule js_request_served)
  have seg: "takeWhile (\<lambda>c. c \<noteq> CHR ''/'') (rev x) \<noteq> []"
    using assms(3) by (auto simp add: extname_js split: if_splits)
  have low: "toLowerCase (path_extname src) = path_extname src"
    using assms(6) seg by (auto simp add: lower_exts extname_ts extname_tsx extname_jsx)
  have ok: "\<forall>c code. fs src = Some (File c)
                \<and> tr (loader_for (path_extname src)) src c = Inr code \<longrightarrow>
               handleRequest tr fs srv pathname =
                 Some \<lparr>status = 200, content_type = ''application/javascript'',
                       cache_control = Some ''no-cache'', content_length = None, body = code\<rparr>"
    using served low by (auto simp add: serveTranspiledFile_ok)
  have indep: "handleRequest tr (fs(x @ ''.js'' := Some (File c'))) srv pathname =
                 handleRequest tr fs srv pathname"
    if js: "fs (x @ ''.js'') = Some (File c0)" for c0 c'
  proof -
    let ?fs = "fs(x @ ''.js'' := Some (File c'))"
    have other: "?fs (x @ ''.ts'') = fs (x @ ''.ts'')" "?fs (x @ ''.tsx'') = fs (x @ ''.tsx'')"
      "?fs (x @ ''.jsx'') = fs (x @ ''.jsx'')"
      by simp_all
    have a4: "?fs (x @ ''.js'') \<noteq> Some Directory" by simp
    have a5: "?fs (x @ ''.ts'') \<noteq> None \<or> ?fs (x @ ''.tsx'') \<noteq> None
         \<or> (?fs (x @ ''.js'') = None \<and> ?fs (x @ ''.jsx'') \<noteq> None)"
      using assms(5) js by simp
    have "handleRequest tr ?fs srv pathname =
           Some (serveTranspiledFile tr ?fs
             (if ?fs (x @ ''.ts'') \<noteq> None then x @ ''.ts''
              else if ?fs (x @ ''.tsx'') \<noteq> None then x @ ''.tsx'' else x @ ''.jsx''))"
      using assms(1-3) a4 a5 by (rule js_request_served)
    then have "handleRequest tr ?fs srv pathname = Some (serveTranspiledFile tr ?fs src)"
      unfolding other assms(6) .
    moreover have "?fs src = fs src" using assms(6) by simp
    then have "serveTranspiledFile tr ?fs src = serveTranspiledFile tr fs src"
      by (rule serveTranspiledFile_cong)
    ultimately show ?thesis
      using served by simp
  qed
  from served ok indep show ?thesis by blast
qed

theorem js_request_prefers_source_witness:
  "''/main.js'' \<noteq> WS_ENDPOINT
   \<and> path_join (rootDir demo_server) ''/main.js'' = ''/srv/www/main'' @ ''.js''
   \<and> path_extname (''/srv/www/main'' @ ''.js'') = ''.js''
   \<and> demo_files ''/srv/www/main.js'' = Some (File ''var x = 1;'')
   \<and> demo_files ''/srv/www/main.ts'' = Some (File ''let x: number = 1;'')
   \<and> demo_transform Ts ''/srv/www/main.ts'' ''let x: number = 1;'' = Inr ''/*ts*/let x: number = 1;''
   \<and> handleRequest demo_transform demo_files demo_server ''/main.js'' =
       Some \<lparr>status = 200, content_type = ''application/javascript'',
             cache_control = Some ''no-cache'', content_length = None,
             body = ''/*ts*/let x: number = 1;''\<rparr>"
proof -
  have h1: "''/main.js'' \<noteq> WS_ENDPOINT" by (simp add: WS_ENDPOINT_def)
  have h2: "path_join (rootDir demo_server) ''/main.js'' = ''/srv/www/main'' @ ''.js''"
    by (simp add: eval_path demo_server_def)
  have h3: "path_extname (''/srv/www/main'' @ ''.js'') = ''.js''"
    by (simp add: eval_path)
  have h4: "demo_files (''/srv/www/main'' @ ''.js'') \<noteq> Some Directory"
    by (simp add: eval_fs)
  have f1: "demo_files ''/srv/www/main.js'' = Some (File ''var x = 1;'')"
    and f2: "demo_files ''/srv/www/main.ts'' = Some (File ''let x: number = 1;'')"
    by (simp_all add: eval_fs)
  have h5: "demo_files (''/srv/www/main'' @ ''.ts'') \<noteq> None
         \<or> demo_files (''/srv/www/main'' @ ''.tsx'') \<noteq> None
         \<or> (demo_files (''/srv/www/main'' @ ''.js'') = None
             \<and> demo_files (''/srv/www/main'' @ ''.jsx'') \<noteq> None)"
    using f2 by simp
  have t: "demo_transform Ts ''/srv/www/main.ts'' ''let x: number = 1;'' = Inr ''/*ts*/let x: number = 1;''"
    by (simp add: demo_transform_def)
  have e: "loader_for (path_extname ''/srv/www/main.ts'') = Ts"
    by (simp add: eval_path loader_for_def)
  have src: "(if demo_files (''/srv/www/main'' @ ''.ts'') \<noteq> None then ''/srv/www/main'' @ ''.ts''
              else if demo_files (''/srv/www/main'' @ ''.tsx'') \<noteq> None
                then ''/srv/www/main'' @ ''.tsx'' else ''/srv/www/main'' @ ''.jsx'')
             = ''/srv/www/main.ts''"
    using f2 by simp
  have t': "demo_transform (loader_for (path_extname ''/srv/www/main.ts'')) ''/srv/www/main.ts''
              ''let x: number = 1;'' = Inr ''/*ts*/let x: number = 1;''"
    using t e by simp
  note th = js_request_prefers_source [OF h1 h2 h3 h4 h5 refl, where tr = demo_transform]
  have "handleRequest demo_transform demo_files demo_server ''/main.js'' =
       Some \<lparr>status = 200, content_type = ''application/javascript'',
             cache_control = Some ''no-cache'', content_length = None,
             body = ''/*ts*/let x: number = 1;''\<rparr>"
    by (rule th [unfolded src, THEN conjunct2, THEN conjunct1, rule_format, OF conjI [OF f2 t']])
  with h1 h2 h3 f1 f2 t show ?thesis by simp
qed

text \<open>
  The claim as it is written fails in two ways. When the transpiler rejects the source, the body
  is the message of a 500 response and no transpilation: \<open>broken.ts\<close> answers the request for
  \<open>broken.js\<close> so. And when \<open>x.js\<close> exists and \<open>x.jsx\<close> is the only source, the bytes of
  \<open>x.js\<close> are served: the branch for an existing \<open>.js\<close> file looks for \<open>.ts\<close> and \<open>.tsx\<close>
  only.
\<close>

theorem js_request_counterexample:
  "demo_files ''/srv/www/broken.js'' = None
   \<and> demo_files ''/srv/www/broken.ts'' = Some (File ''let = ;'')
   \<and> handleRequest demo_transform demo_files demo_server ''/broken.js'' =
       Some \<lparr>status = 500, content_type = ''text/plain'', cache_control = None,
             content_length = None,
             body = ''Transpilation error: Error: Failed to transpile /srv/www/broken.ts: Transform failed with 1 error''\<rparr>
   \<and> demo_files ''/srv/www/widget.jsx'' = Some (File ''const w = <i/>;'')
   \<and> demo_files ''/srv/www/widget.ts'' = None
   \<and> demo_files ''/srv/www/widget.tsx'' = None
   \<and> demo_files ''/srv/www/widget.js'' = Some (File ''var w;'')
   \<and> handleRequest demo_transform demo_files demo_server ''/widget.js'' =
       Some \<lparr>status = 200, content_type = ''application/javascript'',
             cache_control = Some ''no-cache'', content_length = Some 6, body = ''var w;''\<rparr>"
  by (simp add: eval_request eval_path eval_fs)

text \<open>
  Claim C3, as the code has it. For a request path \<open>p\<close> other than the reserved endpoint
  \<open>/__ts-live-server-ws\<close>, when \<open>p\<close> joined onto the root is a directory and \<open>index.html\<close>
  inside it is a readable file, the requests \<open>p\<close> and \<open>p/index.html\<close> resolve to the same file
  and get the same response.
\<close>

theorem directory_index:
  assumes "p \<noteq> []" and "p \<noteq> WS_ENDPOINT"
    and "fs (path_join (rootDir srv) p) = Some Directory"
    and "fs (path_join (path_join (rootDir srv) p) ''index.html'') = Some (File c)"
  shows "handleRequest tr fs srv p = handleRequest tr fs srv (p @ ''/index.html'')
         \<and> resolvedPath fs srv p = path_join (path_join (rootDir srv) p) ''index.html''
         \<and> resolvedPath fs srv (p @ ''/index.html'') = resolvedPath fs srv p"
proof -
  let ?F = "path_join (path_join (rootDir srv) p) ''index.html''"
  have r1: "resolvedPath fs srv p = ?F"
    using assms(3) by (simp add: resolvedPath_def stat_def)
  have "path_join (rootDir srv) (p @ ''/index.html'') = ?F"
    using join_index [OF assms(1)] by simp
  then have r2: "resolvedPath fs srv (p @ ''/index.html'') = ?F"
    using assms(4) by (simp add: resolvedPath_def stat_def)
  have same: "serveResolved tr fs srv p ?F = serveResolved tr fs srv (p @ ''/index.html'') ?F"
    using assms(4)
    by (simp add: serveResolved_def serveStaticFile_def readFile_def access_def Let_def)
  show ?thesis
    using r1 r2 same assms(2) index_not_endpoint [of p]
    by (simp add: handleRequest_def)
qed

theorem directory_index_witness:
  "''/docs'' \<noteq> [] \<and> ''/docs'' \<noteq> WS_ENDPOINT
   \<and> demo_files (path_join (rootDir demo_server) ''/docs'') = Some Directory
   \<and> demo_files (path_join (path_join (rootDir demo_server) ''/docs'') ''index.html'')
       = Some (File ''<body>Docs</body>'')
   \<and> handleRequest demo_transform demo_files demo_server ''/docs''
       = handleRequest demo_transform demo_files demo_server (''/docs'' @ ''/index.html'')
   \<and> map_option status (handleRequest demo_transform demo_files demo_server ''/docs'') = Some 200"
proof -
  have h1: "''/docs'' \<noteq> []" by simp
  have h2: "''/docs'' \<noteq> WS_ENDPOINT" by (simp add: WS_ENDPOINT_def)
  have h3: "demo_files (path_join (rootDir demo_server) ''/docs'') = Some Directory"
    by (simp add: eval_path eval_fs demo_server_def)
  have h4: "demo_files (path_join (path_join (rootDir demo_server) ''/docs'') ''index.html'')
       = Some (File ''<body>Docs</body>'')"
    by (simp add: eval_path eval_fs demo_server_def)
  have s: "map_option status (handleRequest demo_transform demo_files demo_server ''/docs'') = Some 200"
    by (simp add: eval_request eval_path eval_fs LIVE_RELOAD_SCRIPT_def)
  from directory_index [OF h1 h2 h3 h4, where tr = demo_transform] h1 h2 h3 h4 s
  show ?thesis by simp
qed

text \<open>
  The claim as it is written fails for the reserved endpoint: a request for exactly
  \<open>/__ts-live-server-ws\<close> is left without a response, also when a directory of that name with
  an \<open>index.html\<close> exists, while \<open>/__ts-live-server-ws/index.html\<close> is served.
\<close>

theorem endpoint_directory_counterexample:
  "demo_files (path_join (rootDir demo_server) ''/__ts-live-server-ws'') = Some Directory
   \<and> demo_files (path_join (path_join (rootDir demo_server) ''/__ts-live-server-ws'') ''index.html'')
       = Some (File ''<body>ws</body>'')
   \<and> handleRequest demo_transform demo_files demo_server ''/__ts-live-server-ws'' = None
   \<and> map_option status
         (handleRequest demo_transform demo_files demo_server ''/__ts-live-server-ws/index.html'')
       = Some 200"
  by (simp add: eval_request eval_path eval_fs LIVE_RELOAD_SCRIPT_def)

text \<open>
  Claim C4, as the code has it. An \<open>.html\<close> file served with live reload is answered 200
  with the text of the file, as its bytes decode from UTF-8 (bytes that are not well-formed
  UTF-8 replaced by U+FFFD; ASCII text is left as it is), and one copy of the snippet inserted
  into it: at the position of the first occurrence of the exact characters \<open></body>\<close> in the
  text, so that the snippet is immediately followed by them, and at the end of the text when it
  has no such occurrence (a closing tag in other letters, as \<open></BODY>\<close>, is not one). Nothing of
  the text is removed, so a text that already holds the snippet is answered with more than one
  copy.
\<close>

theorem html_injection:
  assumes "pathname \<noteq> WS_ENDPOINT"
    and "liveReload srv"
    and "filePath = resolvedPath fs srv pathname"
    and "toLowerCase (path_extname filePath) = ''.html''"
    and "fs filePath = Some (File content)"
    and "html = toString_utf8 content"
  shows "\<exists>b. handleRequest tr fs srv pathname =
              Some \<lparr>status = 200, content_type = ''text/html'', cache_control = Some ''no-cache'',
                    content_length = Some (length b), body = b\<rparr>
          \<and> (\<forall>i. occurs_at ''</body>'' html i \<and> (\<forall>j<i. \<not> occurs_at ''</body>'' html j) \<longrightarrow>
                b = take i html @ LIVE_RELOAD_SCRIPT @ drop i html
                \<and> occurs_at (LIVE_RELOAD_SCRIPT @ ''</body>'') b i)
          \<and> ((\<forall>i. \<not> occurs_at ''</body>'' html i) \<longrightarrow>
                b = html @ LIVE_RELOAD_SCRIPT \<and> occurs_at LIVE_RELOAD_SCRIPT b (length html))
          \<and> ((\<forall>c\<in>set content. (of_char c :: nat) < 128) \<longrightarrow> html = content)"
proof -
  define b where "b = (if includes_str ''</body>'' html
      then replace_first ''</body>'' (LIVE_RELOAD_SCRIPT @ ''</body>'') html
      else html @ LIVE_RELOAD_SCRIPT)"
  have resp: "handleRequest tr fs srv pathname =
              Some \<lparr>status = 200, content_type = ''text/html'', cache_control = Some ''no-cache'',
                    content_length = Some (length b), body = b\<rparr>"
    using assms
    by (simp add: handleRequest_def serveResolved_def access_def TRANSPILE_EXTENSIONS_def
        serveStaticFile_def injectLiveReload_def readFile_def MIME_TYPES_def b_def Let_def)
  have first: "b = take i html @ LIVE_RELOAD_SCRIPT @ drop i html
               \<and> occurs_at (LIVE_RELOAD_SCRIPT @ ''</body>'') b i"
    if occ: "occurs_at ''</body>'' html i" and least: "\<forall>j<i. \<not> occurs_at ''</body>'' html j" for i
  proof -
    obtain k where k: "indexOf ''</body>'' html = Some k"
      using indexOf_None [of "''</body>''" html i] occ by (cases "indexOf ''</body>'' html") auto
    have "k = i"
      using indexOf_Some [OF k] occ least by (metis nat_neq_iff)
    with k have b1: "b = take i html @ (LIVE_RELOAD_SCRIPT @ ''</body>'') @ drop (i + length ''</body>'') html"
      by (simp add: b_def includes_str_def replace_first_def)
    moreover have "drop i html = ''</body>'' @ drop (i + length ''</body>'') html"
      using occurs_at_drop [OF occ] by simp
    moreover have "i \<le> length html" using occ by (simp add: occurs_at_def)
    ultimately show ?thesis
      using occurs_at_insert [of i html "LIVE_RELOAD_SCRIPT @ ''</body>''" "drop (i + length ''</body>'') html"]
      by simp
  qed
  have none: "b = html @ LIVE_RELOAD_SCRIPT \<and> occurs_at LIVE_RELOAD_SCRIPT b (length html)"
    if "\<forall>i. \<not> occurs_at ''</body>'' html i"
  proof -
    have "indexOf ''</body>'' html = None"
    proof (cases "indexOf ''</body>'' html")
      case None
      then show ?thesis .
    next
      case (Some k)
      with indexOf_Some [OF Some] that show ?thesis by simp
    qed
    then show ?thesis by (simp add: b_def includes_str_def occurs_at_def)
  qed
  have ascii: "html = content" if "\<forall>c\<in>set content. (of_char c :: nat) < 128"
    using that assms(6) by (simp add: toString_utf8_ascii)
  from resp first none ascii show ?thesis by blast
qed

theorem html_injection_witness:
  "''/'' \<noteq> WS_ENDPOINT \<and> liveReload demo_server
   \<and> resolvedPath demo_files demo_server ''/'' = ''/srv/www/index.html''
   \<and> toLowerCase (path_extname ''/srv/www/index.html'') = ''.html''
   \<and> demo_files ''/srv/www/index.html'' = Some (File ''<html><body><h1>Hi</h1></body></html>'')
   \<and> toString_utf8 ''<html><body><h1>Hi</h1></body></html>''
       = ''<html><body><h1>Hi</h1></body></html>''
   \<and> indexOf ''</body>'' ''<html><body><h1>Hi</h1></body></html>'' = Some 23
   \<and> handleRequest demo_transform demo_files demo_server ''/'' =
       Some \<lparr>status = 200, content_type = ''text/html'', cache_control = Some ''no-cache'',
             content_length = Some 599,
             body = ''<html><body><h1>Hi</h1>'' @ LIVE_RELOAD_SCRIPT @ ''</body></html>''\<rparr>"
proof -
  let ?html = "''<html><body><h1>Hi</h1></body></html>''"
  have h1: "''/'' \<noteq> WS_ENDPOINT" by (simp add: WS_ENDPOINT_def)
  have h2: "liveReload demo_server" by (simp add: demo_server_def)
  have h3: "resolvedPath demo_files demo_server ''/'' = ''/srv/www/index.html''"
    by (simp add: resolvedPath_def eval_path eval_fs demo_server_def)
  have h4: "toLowerCase (path_extname ''/srv/www/index.html'') = ''.html''"
    by (simp add: eval_path toLowerCase_def lower_char_def)
  have h5: "demo_files ''/srv/www/index.html'' = Some (File ?html)"
    by (simp add: eval_fs)
  have h6: "toString_utf8 ?html = ?html"
    by (simp add: toString_utf8_def)
  have i: "indexOf ''</body>'' ?html = Some 23" by code_simp
  have len: "length LIVE_RELOAD_SCRIPT = 562" by (simp add: LIVE_RELOAD_SCRIPT_def)
  from html_injection [OF h1 h2 h3 [symmetric] _ _ h6 [symmetric], where tr = demo_transform]
    h3 h4 h5
  obtain b where b: "handleRequest demo_transform demo_files demo_server ''/'' =
              Some \<lparr>status = 200, content_type = ''text/html'', cache_control = Some ''no-cache'',
                    content_length = Some (length b), body = b\<rparr>"
    and ins: "\<forall>i. occurs_at ''</body>'' ?html i \<and> (\<forall>j<i. \<not> occurs_at ''</body>'' ?html j) \<longrightarrow>
                b = take i ?html @ LIVE_RELOAD_SCRIPT @ drop i ?html
                \<and> occurs_at (LIVE_RELOAD_SCRIPT @ ''</body>'') b i"
    by auto
  from ins indexOf_Some [OF i]
  have "b = take 23 ?html @ LIVE_RELOAD_SCRIPT @ drop 23 ?html" by blast
  then have "b = ''<html><body><h1>Hi</h1>'' @ LIVE_RELOAD_SCRIPT @ ''</body></html>''" by simp
  with b len h1 h2 h3 h4 h5 h6 i show ?thesis by simp
qed

text \<open>
  The claim as it is written fails for a page that was saved from this server: the file holds
  the snippet already, the server inserts another one, and the body holds two copies.
\<close>

theorem saved_page_counterexample:
  "demo_files ''/srv/www/saved.html'' = Some (File (''<body>'' @ LIVE_RELOAD_SCRIPT @ ''</body>''))
   \<and> map_option body (handleRequest demo_transform demo_files demo_server ''/saved.html'')
       = Some (''<body>'' @ LIVE_RELOAD_SCRIPT @ LIVE_RELOAD_SCRIPT @ ''</body>'')
   \<and> occurs_at LIVE_RELOAD_SCRIPT
         (''<body>'' @ LIVE_RELOAD_SCRIPT @ LIVE_RELOAD_SCRIPT @ ''</body>'') 6
   \<and> occurs_at LIVE_RELOAD_SCRIPT
         (''<body>'' @ LIVE_RELOAD_SCRIPT @ LIVE_RELOAD_SCRIPT @ ''</body>'') 568"
proof -
  have f: "demo_files ''/srv/www/saved.html'' = Some (File (''<body>'' @ LIVE_RELOAD_SCRIPT @ ''</body>''))"
    by (simp add: eval_fs)
  have b: "map_option body (handleRequest demo_transform demo_files demo_server ''/saved.html'')
       = Some (''<body>'' @ LIVE_RELOAD_SCRIPT @ LIVE_RELOAD_SCRIPT @ ''</body>'')"
    by code_simp
  have len: "length LIVE_RELOAD_SCRIPT = 562" by (simp add: LIVE_RELOAD_SCRIPT_def)
  have o1: "occurs_at LIVE_RELOAD_SCRIPT
         (''<body>'' @ LIVE_RELOAD_SCRIPT @ LIVE_RELOAD_SCRIPT @ ''</body>'') (length ''<body>'')"
    by (rule occurs_at_mid)
  have o2: "occurs_at LIVE_RELOAD_SCRIPT
         ((''<body>'' @ LIVE_RELOAD_SCRIPT) @ LIVE_RELOAD_SCRIPT @ ''</body>'')
         (length (''<body>'' @ LIVE_RELOAD_SCRIPT))"
    by (rule occurs_at_mid)
  have l1: "length ''<body>'' = 6" by simp
  have l2: "length (''<body>'' @ LIVE_RELOAD_SCRIPT) = 568" using len by simp
  from o1 l1 have o1': "occurs_at LIVE_RELOAD_SCRIPT
         (''<body>'' @ LIVE_RELOAD_SCRIPT @ LIVE_RELOAD_SCRIPT @ ''</body>'') 6" by (simp only:)
  from o2 have o2': "occurs_at LIVE_RELOAD_SCRIPT
         (''<body>'' @ LIVE_RELOAD_SCRIPT @ LIVE_RELOAD_SCRIPT @ ''</body>'') 568"
    unfolding l2 by (simp only: append_assoc)
  from f b o1' o2' show ?thesis by (intro conjI)
qed

text \<open>
  It fails as well for a page that closes its body with \<open></BODY>\<close>: the search is for the
  characters \<open></body>\<close> as they are, and the snippet is put after the last character of the
  page, not before the closing tag.
\<close>

lemma upper_case_tag_appended:
  "demo_files ''/srv/www/upper.html'' = Some (File ''<HTML><BODY>Hi</BODY></HTML>'')
   \<and> handleRequest demo_transform demo_files demo_server ''/upper.html'' =
       Some \<lparr>status = 200, content_type = ''text/html'', cache_control = Some ''no-cache'',
             content_length = Some (28 + length LIVE_RELOAD_SCRIPT),
             body = ''<HTML><BODY>Hi</BODY></HTML>'' @ LIVE_RELOAD_SCRIPT\<rparr>"
  by code_simp

text \<open>
  A byte that is not UTF-8 does not reach the response: the \<open>E9\<close> of a file in Latin-1 is sent
  as the three bytes of U+FFFD, and the length that is announced counts them.
\<close>

lemma latin1_page_replaced:
  "demo_files ''/srv/www/latin1.html'' = Some (File (''<body>caf'' @ [CHR 0xE9] @ ''</body>''))
   \<and> handleRequest demo_transform demo_files demo_server ''/latin1.html'' =
       Some \<lparr>status = 200, content_type = ''text/html'', cache_control = Some ''no-cache'',
             content_length = Some (19 + length LIVE_RELOAD_SCRIPT),
             body = ''<body>caf'' @ REPLACEMENT @ LIVE_RELOAD_SCRIPT @ ''</body>''\<rparr>"
  by code_simp




text \<open>
  A path with a malformed escape is outside the claim: it has no resolved path.
  \<open>decodeURIComponent\<close> throws, no response is written and the rejection of the handler is
  handled nowhere.
\<close>

lemma malformed_escape_unhandled:
  "decodeURIComponent ''/%'' = None
   \<and> handleRequest_encoded demo_transform demo_files demo_server ''/%'' = UnhandledURIError"
  by (simp add: handleRequest_encoded_def decodeURIComponent_def)

text \<open>
  Claim C9. The listener leaves the server object as it was, so the same request served again
  over the same files gets the same response, for static and for transpiled files alike; the
  response only depends on the root directory and the live-reload switch of the server, not on
  its connections or its running state.
\<close>

theorem serving_twice_same_response:
  "snd (request_listener tr fs srv pathname) = srv
   \<and> fst (request_listener tr fs (snd (request_listener tr fs srv pathname)) pathname)
       = fst (request_listener tr fs srv pathname)
   \<and> (\<forall>srv'. rootDir srv' = rootDir srv \<and> liveReload srv' = liveReload srv \<longrightarrow>
         handleRequest tr fs srv' pathname = handleRequest tr fs srv pathname)"
proof -
  have "handleRequest tr fs srv' pathname = handleRequest tr fs srv pathname"
    if r: "rootDir srv' = rootDir srv" and l: "liveReload srv' = liveReload srv" for srv'
  proof -
    have a: "resolvedPath fs srv' pathname = resolvedPath fs srv pathname"
      using r by (simp add: resolvedPath_def)
    have b: "serveStaticFile srv' fs f e = serveStaticFile srv fs f e" for f e
      unfolding serveStaticFile_def l ..
    have c: "serveResolved tr fs srv' pathname f = serveResolved tr fs srv pathname f" for f
      unfolding serveResolved_def b ..
    show ?thesis unfolding handleRequest_def a c ..
  qed
  then have g: "\<forall>srv'. rootDir srv' = rootDir srv \<and> liveReload srv' = liveReload srv \<longrightarrow>
         handleRequest tr fs srv' pathname = handleRequest tr fs srv pathname"
    by blast
  have s: "snd (request_listener tr fs srv pathname) = srv"
    by (simp add: request_listener_def)
  have f: "fst (request_listener tr fs (snd (request_listener tr fs srv pathname)) pathname)
       = fst (request_listener tr fs srv pathname)"
    by (simp add: request_listener_def)
  from s f g show ?thesis by (intro conjI)
qed

theorem serving_twice_same_response_witness:
  "rootDir demo_running = rootDir demo_server \<and> liveReload demo_running = liveReload demo_server
   \<and> handleRequest demo_transform demo_files demo_running ''/main.js''
       = handleRequest demo_transform demo_files demo_server ''/main.js''
   \<and> fst (request_listener demo_transform demo_files
             (snd (request_listener demo_transform demo_files demo_server ''/main.js'')) ''/main.js'')
       = Some \<lparr>status = 200, content_type = ''application/javascript'',
               cache_control = Some ''no-cache'', content_length = None,
               body = ''/*ts*/let x: number = 1;''\<rparr>"
proof -
  have c: "rootDir demo_running = rootDir demo_server \<and> liveReload demo_running = liveReload demo_server"
    by (simp add: demo_running_def)
  have r: "fst (request_listener demo_transform demo_files demo_server ''/main.js'')
       = Some \<lparr>status = 200, content_type = ''application/javascript'',
               cache_control = Some ''no-cache'', content_length = None,
               body = ''/*ts*/let x: number = 1;''\<rparr>"
    by (simp add: eval_request eval_path eval_fs)
  note th = serving_twice_same_response [of demo_transform demo_files demo_server "''/main.js''"]
  from th c have "handleRequest demo_transform demo_files demo_running ''/main.js''
       = handleRequest demo_transform demo_files demo_server ''/main.js''" by blast
  moreover from th r have "fst (request_listener demo_transform demo_files
             (snd (request_listener demo_transform demo_files demo_server ''/main.js'')) ''/main.js'')
       = Some \<lparr>status = 200, content_type = ''application/javascript'',
               cache_control = Some ''no-cache'', content_length = None,
               body = ''/*ts*/let x: number = 1;''\<rparr>" by simp
  ultimately show ?thesis using c by simp
qed

text \<open>
  Claim C10, as the code has it. A request whose resolved path is a readable file with the
  extension \<open>.ts\<close>, \<open>.tsx\<close> or \<open>.jsx\<close> (in any case of letters) is answered by
  \<open>serveTranspiledFile\<close>, never with the source text as it is: 200 with content type
  \<open>application/javascript\<close> and the transpiler's output when the transpiler succeeds, and 500
  with content type \<open>text/plain\<close> and the message of the failure when it reports an error.
\<close>

theorem source_file_transpiled:
  assumes "pathname \<noteq> WS_ENDPOINT"
    and "filePath = resolvedPath fs srv pathname"
    and "ext = toLowerCase (path_extname filePath)"
    and "ext = ''.ts'' \<or> ext = ''.tsx'' \<or> ext = ''.jsx''"
    and "fs filePath = Some (File content)"
  shows "handleRequest tr fs srv pathname = Some (serveTranspiledFile tr fs filePath)
         \<and> (\<forall>code. tr (loader_for ext) filePath content = Inr code \<longrightarrow>
               handleRequest tr fs srv pathname =
                 Some \<lparr>status = 200, content_type = ''application/javascript'',
                       cache_control = Some ''no-cache'', content_length = None, body = code\<rparr>)
         \<and> (\<forall>msg. tr (loader_for ext) filePath content = Inl msg \<longrightarrow>
               handleRequest tr fs srv pathname =
                 Some \<lparr>status = 500, content_type = ''text/plain'', cache_control = None,
                       content_length = None,
                       body = ''Transpilation error: Error: Failed to transpile '' @ filePath
                              @ '': '' @ msg\<rparr>)"
proof -
  have served: "handleRequest tr fs srv pathname = Some (serveTranspiledFile tr fs filePath)"
    using assms
    by (auto simp add: handleRequest_def serveResolved_def access_def TRANSPILE_EXTENSIONS_def)
  show ?thesis
    using served assms(3,5)
    by (simp add: serveTranspiledFile_ok serveTranspiledFile_diag)
qed

theorem source_file_transpiled_witness:
  "''/main.ts'' \<noteq> WS_ENDPOINT
   \<and> resolvedPath demo_files demo_server ''/main.ts'' = ''/srv/www/main.ts''
   \<and> toLowerCase (path_extname ''/srv/www/main.ts'') = ''.ts''
   \<and> demo_files ''/srv/www/main.ts'' = Some (File ''let x: number = 1;'')
   \<and> demo_transform (loader_for ''.ts'') ''/srv/www/main.ts'' ''let x: number = 1;''
       = Inr ''/*ts*/let x: number = 1;''
   \<and> handleRequest demo_transform demo_files demo_server ''/main.ts'' =
       Some \<lparr>status = 200, content_type = ''application/javascript'',
             cache_control = Some ''no-cache'', content_length = None,
             body = ''/*ts*/let x: number = 1;''\<rparr>"
proof -
  have h1: "''/main.ts'' \<noteq> WS_ENDPOINT" by (simp add: WS_ENDPOINT_def)
  have h2: "resolvedPath demo_files demo_server ''/main.ts'' = ''/srv/www/main.ts''"
    by (simp add: resolvedPath_def resolveFile_def eval_path eval_fs demo_server_def)
  have h3: "toLowerCase (path_extname ''/srv/www/main.ts'') = ''.ts''"
    by (simp add: eval_path toLowerCase_def lower_char_def)
  have h4: "''.ts'' = ''.ts'' \<or> ''.ts'' = ''.tsx'' \<or> ''.ts'' = ''.jsx''" by simp
  have h5: "demo_files ''/srv/www/main.ts'' = Some (File ''let x: number = 1;'')"
    by (simp add: eval_fs)
  have t: "demo_transform (loader_for ''.ts'') ''/srv/www/main.ts'' ''let x: number = 1;''
       = Inr ''/*ts*/let x: number = 1;''"
    by (simp add: demo_transform_def loader_for_def)
  note th = source_file_transpiled [OF h1 h2 [symmetric] h3 [symmetric] h4 h5,
      where tr = demo_transform]
  have "handleRequest demo_transform demo_files demo_server ''/main.ts'' =
       Some \<lparr>status = 200, content_type = ''application/javascript'',
             cache_control = Some ''no-cache'', content_length = None,
             body = ''/*ts*/let x: number = 1;''\<rparr>"
    by (rule th [THEN conjunct2, THEN conjunct1, rule_format, OF t])
  with h1 h2 h3 h5 t show ?thesis by simp
qed

text \<open>
  The claim as it is written fails for a source file the transpiler rejects: the response is
  500, not 200.
\<close>

theorem broken_source_counterexample:
  "resolvedPath demo_files demo_server ''/broken.ts'' = ''/srv/www/broken.ts''
   \<and> demo_files ''/srv/www/broken.ts'' = Some (File ''let = ;'')
   \<and> demo_transform Ts ''/srv/www/broken.ts'' ''let = ;'' = Inl ''Transform failed with 1 error''
   \<and> handleRequest demo_transform demo_files demo_server ''/broken.ts'' =
       Some \<lparr>status = 500, content_type = ''text/plain'', cache_control = None,
             content_length = None,
             body = ''Transpilation error: Error: Failed to transpile /srv/www/broken.ts: Transform failed with 1 error''\<rparr>"
  by (simp add: eval_request eval_path eval_fs)

end
